theory Spec2Isabelle
  imports Main "HOL-Library.Sublist"
begin

section \<open>Strings\<close>

text \<open>
  Go strings are byte sequences; they are modelled as \<open>string\<close> (a list of 8-bit
  characters). \<open>strings.Contains s substr\<close> is \<open>sublist substr s\<close> and
  \<open>strings.HasSuffix s suf\<close> is \<open>suffix suf s\<close>, both from the library theory of
  sublists; \<open>strings.TrimSuffix\<close> removes the suffix when it is there.
\<close>

definition Contains :: "string \<Rightarrow> string \<Rightarrow> bool" where
  "Contains s substr = sublist substr s"

definition HasSuffix :: "string \<Rightarrow> string \<Rightarrow> bool" where
  "HasSuffix s suf = suffix suf s"

definition TrimSuffix :: "string \<Rightarrow> string \<Rightarrow> string" where
  "TrimSuffix s suf = (if HasSuffix s suf then take (length s - length suf) s else s)"

text \<open>
  \<open>strings.ReplaceAll s old new\<close> replaces the non-overlapping occurrences of \<open>old\<close>,
  leftmost first. For an empty \<open>old\<close> Go inserts \<open>new\<close> before every UTF-8 sequence
  and at the end; the model inserts it before every byte and at the end, which is the
  same on ASCII text (QuoteArg never passes an empty \<open>old\<close>).
\<close>

function ReplaceAll :: "string \<Rightarrow> string \<Rightarrow> string \<Rightarrow> string" where
  "ReplaceAll s old new =
     (if old = [] then new @ concat (map (\<lambda>c. c # new) s)
      else if s = [] then []
      else if prefix old s then new @ ReplaceAll (drop (length old) s) old new
      else hd s # ReplaceAll (tl s) old new)"
  by pat_completeness auto
termination
  by (relation "measure (\<lambda>(s, old, new). length s)") auto

declare ReplaceAll.simps [simp del]

section \<open>QuoteArg\<close>

definition QuoteArg :: "string \<Rightarrow> string" where
  "QuoteArg s = [CHR 0x27] @ ReplaceAll s [CHR 0x27] [CHR 0x27, CHR 0x27] @ [CHR 0x27]"

text \<open>
  The spec's wording of the quoting helper: every embedded single-quote character
  doubled, the whole wrapped in single quotes.
\<close>

definition double_quotes_spec :: "string \<Rightarrow> string" where
  "double_quotes_spec s =
     concat (map (\<lambda>c. if c = CHR 0x27 then [CHR 0x27, CHR 0x27] else [c]) s)"

definition QuoteArg_spec :: "string \<Rightarrow> string" where
  "QuoteArg_spec s = CHR 0x27 # double_quotes_spec s @ [CHR 0x27]"

section \<open>Errors and the platform\<close>

text \<open>
  Errors are values. \<open>Err msg\<close> is an error made from a message (\<open>goerr.New\<close>, or a
  plain value handed to \<open>goerr.Wrap\<close> or \<open>Reject\<close>); \<open>Wrap e msgs\<close> is
  \<open>goerr.Wrap(e, msgs...)\<close>. How an error prints (\<open>err.Error()\<close>) belongs to the
  error library, so the rendering is a parameter: \<open>ErrorText\<close>. \<open>GOOS\<close> is
  \<open>runtime.GOOS\<close>.
\<close>

datatype error = Err string | Wrap error "string list"

record platform =
  GOOS :: string
  ErrorText :: "error \<Rightarrow> string"

definition newLine :: "platform \<Rightarrow> string" where
  "newLine pf = (if GOOS pf = ''windows'' then [CHR 0x0D, CHR 0x0A] else [CHR 0x0A])"

definition bufferSize :: nat where
  "bufferSize = 64"

section \<open>The backend\<close>

text \<open>
  A \<open>Starter\<close> is an object behind an interface: its methods and its hidden state. The
  record holds the behaviour of \<open>LookPath\<close> and \<open>StartProcess\<close>, what the process does
  with a write to its stdin given the earlier writes (\<open>StdinWrite\<close>: the write fails, or
  it succeeds and the process makes further read results available on stdout and on
  stderr), whether the stdin handle is an \<open>io.Closer\<close>, the writes so far, the read
  results each pipe still holds, and the readers that earlier calls have left behind on
  each pipe. A pending \<open>Chunk\<close> is data that has arrived; a pending \<open>Failure\<close> is an
  error (EOF included) the next \<open>Read\<close> returns. A \<open>Read\<close> on a pipe that holds nothing
  blocks for ever: within one call nothing further is written to stdin. Every other
  call on the backend is taken to return.

  A reader left behind is a reader goroutine of \<open>streamReader\<close> that is still in its loop
  after its call has returned: nothing stops a reader that is blocked in \<open>Read\<close>. It has
  its own marker and its own \<open>output\<close>. \<open>leftStopping\<close> says that its \<open>FastAny\<close> has ended,
  so that it leaves at its next \<open>ShouldStop\<close> check, after the \<open>Read\<close> it is blocked in
  has returned.
\<close>

datatype read_result = Chunk string | Failure error

datatype write_result = WriteErr error | WriteOk "read_result list" "read_result list"

record straggler =
  leftMarker :: string
  leftOutput :: string
  leftStopping :: bool

record Starter =
  LookPath :: "string \<Rightarrow> error + string"
  StartProcess :: "string \<Rightarrow> string list \<Rightarrow> error option"
  StdinWrite :: "string list \<Rightarrow> string \<Rightarrow> write_result"
  StdinCloser :: bool
  written :: "string list"
  stdoutPending :: "read_result list"
  stderrPending :: "read_result list"
  stdoutLeft :: "straggler list"
  stderrLeft :: "straggler list"

datatype pipe = Stdout | Stderr

datatype io_event =
    EvSetEnv "(string \<times> string) list" bool
  | EvSetWorkingDir string
  | EvLookPath string
  | EvStartProcess string "string list"
  | EvWrite string
  | EvRead pipe
  | EvClose
  | EvWait

text \<open>
  The world outside the Shell: the log of every call made on a backend, the entropy
  the random sentinels are drawn from, and the scheduling of the goroutines. For the
  \<open>k\<close>-th single-command cycle, \<open>watchOut\<close> and \<open>watchErr\<close> say after which reads the
  polling goroutine of that pipe gets to act before its reader does, \<open>takeOut\<close> and
  \<open>takeErr\<close> say which reader the \<open>n\<close>-th read result of the pipe goes to (0 is the
  reader of the call, \<open>k + 1\<close> the \<open>k\<close>-th reader left behind on the pipe, any other
  number the reader of the call again), and \<open>errFirst\<close> says which failure arrives first
  when both pipes fail.
\<close>

record schedule =
  watchOut :: "nat \<Rightarrow> bool"
  watchErr :: "nat \<Rightarrow> bool"
  takeOut :: "nat \<Rightarrow> nat"
  takeErr :: "nat \<Rightarrow> nat"
  errFirst :: bool

record world =
  io :: "io_event list"
  entropy :: "nat \<Rightarrow> nat"
  drawn :: nat
  sched :: "nat \<Rightarrow> schedule"
  cycles :: nat

record Shell =
  backend :: "Starter option"
  env :: "(string \<times> string) list"
  envCombined :: bool
  pwshLocation :: string
  sudoLocation :: string
  wd :: string

text \<open>
  \<open>s.backend.Stdin().Write(data)\<close>: the error if any, and the backend afterwards.
\<close>

definition Write :: "Starter \<Rightarrow> string \<Rightarrow> error option \<times> Starter" where
  "Write b data =
     (case StdinWrite b (written b) data of
        WriteErr e \<Rightarrow> (Some e, b\<lparr>written := written b @ [data]\<rparr>)
      | WriteOk outs errs \<Rightarrow>
          (None, b\<lparr>written := written b @ [data],
                    stdoutPending := stdoutPending b @ outs,
                    stderrPending := stderrPending b @ errs\<rparr>))"

text \<open>
  \<open>stream.Read(buf)\<close> with \<open>buf\<close> of \<open>bufferSize\<close> bytes: \<open>None\<close> when the call blocks for
  ever, else the result and what the pipe still holds. Arrived data longer than the
  buffer is returned in part, the rest stays in the pipe.
\<close>

fun Read :: "read_result list \<Rightarrow> (read_result \<times> read_result list) option" where
  "Read [] = None"
| "Read (Failure e # q) = Some (Failure e, q)"
| "Read (Chunk c # q) =
     (if length c \<le> bufferSize then Some (Chunk c, q)
      else Some (Chunk (take bufferSize c), Chunk (drop bufferSize c) # q))"

fun pending_size :: "read_result list \<Rightarrow> nat" where
  "pending_size [] = 0"
| "pending_size (Failure e # q) = Suc (pending_size q)"
| "pending_size (Chunk c # q) = Suc (length c + pending_size q)"

section \<open>Sentinels\<close>

text \<open>
  Modelled from the spec: \<open>randstr.Hex\<close> belongs to the library
  github.com/thanhpk/randstr, which is not among the sources. The spec (Sentinel
  format) gives a sentinel 12 random hex characters for the call \<open>randstr.Hex(12)\<close>, so
  \<open>Hex n\<close> returns \<open>n\<close> hexadecimal characters, drawn from the world's entropy.
\<close>

definition hexDigit :: "nat \<Rightarrow> char" where
  "hexDigit v = ''0123456789abcdef'' ! (v mod 16)"

definition Hex :: "nat \<Rightarrow> world \<Rightarrow> string \<times> world" where
  "Hex n w = (map (\<lambda>i. hexDigit (entropy w (drawn w + i))) [0..<n], w\<lparr>drawn := drawn w + n\<rparr>)"

definition createBoundary :: "world \<Rightarrow> string \<times> world" where
  "createBoundary w = (case Hex 12 w of (h, w') \<Rightarrow> (''$gopwsh'' @ h @ ''$'', w'))"

section \<open>streamReader\<close>

text \<open>
  A task ends resolved or rejected, or never ends (\<open>Pending\<close>).
\<close>

datatype 'a task = Resolved 'a | Rejected error | Pending

text \<open>
  A read result that goes to a reader left behind. A reader that is stopping leaves,
  whatever it has read. Another one leaves on a read error and when its \<open>output\<close> then
  ends with its marker; else it stays with the longer \<open>output\<close>, stopping when its
  polling goroutine sees \<open>ParserError\<close> there and gets to act (\<open>polled\<close>).
\<close>

definition served :: "bool \<Rightarrow> straggler \<Rightarrow> read_result \<Rightarrow> straggler list" where
  "served polled st r =
     (if leftStopping st then []
      else case r of
        Failure e \<Rightarrow> []
      | Chunk c \<Rightarrow>
          if HasSuffix (leftOutput st @ c) (leftMarker st) then []
          else [st\<lparr>leftOutput := leftOutput st @ c,
                   leftStopping := polled \<and> Contains (leftOutput st @ c) ''ParserError''\<rparr>])"

definition serve :: "bool \<Rightarrow> nat \<Rightarrow> read_result \<Rightarrow> straggler list \<Rightarrow> straggler list" where
  "serve polled k r left = take k left @ served polled (left ! k) r @ drop (Suc k) left"

text \<open>
  Modelled from the spec: \<open>await.FastAny\<close> belongs to the library goasync; by the spec
  (StreamFramer) whichever watcher finishes first decides the outcome and the other is
  cancelled. \<open>streamReader_race\<close> is the two goroutines of \<open>streamReader\<close> under it.

  The reader loops: read, append to \<open>output\<close>, leave the loop when \<open>output\<close> ends with the
  marker; a read error rejects. The poller rejects with \<open>output\<close> once it has seen
  \<open>ParserError\<close> in it. \<open>output\<close> only grows, so the poller can win in the state reached
  by the \<open>n\<close>-th read exactly when that state contains \<open>ParserError\<close> and the scheduling
  lets it act before the reader does (\<open>watch n\<close>); when the reader blocks for ever in
  \<open>Read\<close> the poller, which wakes every millisecond, wins if it can at all. A reader
  whose poller has won is told to stop while it is in its loop: unless its \<open>output\<close> ends
  with the marker it is left behind on the pipe, stopping. The readers that earlier
  calls left behind read the same pipe: the \<open>n\<close>-th read result goes to the one that
  \<open>take n\<close> names. The result is the outcome of the race, \<open>output\<close>, the number of reads
  of the pipe that returned, what the pipe still holds, and the readers left behind.
\<close>

function streamReader_race ::
  "(nat \<Rightarrow> bool) \<Rightarrow> (nat \<Rightarrow> nat) \<Rightarrow> string \<Rightarrow> nat \<Rightarrow> string \<Rightarrow> read_result list
     \<Rightarrow> straggler list
     \<Rightarrow> unit task \<times> string \<times> nat \<times> read_result list \<times> straggler list" where
  "streamReader_race watch take_n marker n output stream left =
     (case Read stream of
        None \<Rightarrow>
          (if Contains output ''ParserError''
           then (Rejected (Err output), output, n, stream,
                 left @ [\<lparr>leftMarker = marker, leftOutput = output, leftStopping = True\<rparr>])
           else (Pending, output, n, stream, left))
      | Some (r, stream') \<Rightarrow>
          (if 0 < take_n n \<and> take_n n \<le> length left
           then streamReader_race watch take_n marker (Suc n) output stream'
                  (serve (watch n) (take_n n - 1) r left)
           else (case r of
              Failure e \<Rightarrow>
                (Rejected (Wrap e [''failed to read stream'']), output, Suc n, stream', left)
            | Chunk c \<Rightarrow>
                (if watch n \<and> Contains (output @ c) ''ParserError''
                 then (Rejected (Err (output @ c)), output @ c, Suc n, stream',
                       if HasSuffix (output @ c) marker then left
                       else left @ [\<lparr>leftMarker = marker, leftOutput = output @ c,
                                      leftStopping = True\<rparr>])
                 else if HasSuffix (output @ c) marker
                 then (Resolved (), output @ c, Suc n, stream', left)
                 else streamReader_race watch take_n marker (Suc n) (output @ c) stream'
                        left))))"
  by pat_completeness auto
termination
proof (relation "measure (\<lambda>(watch, take_n, marker, n, output, stream, left). pending_size stream)")
  have less: "pending_size stream' < pending_size stream"
    if "Read stream = Some (r, stream')" for stream r stream'
  proof (cases stream rule: Read.cases)
    case 1
    with that show ?thesis by simp
  next
    case (2 e q)
    with that show ?thesis by auto
  next
    case (3 c q)
    with that show ?thesis by (auto simp: bufferSize_def split: if_splits)
  qed
  show "wf (measure (\<lambda>(watch, take_n, marker, n, output, stream, left). pending_size stream))"
    by simp
  show "((watch, take_n, marker, Suc n, acc, stream', serve (watch n) (take_n n - 1) r left),
         (watch, take_n, marker, n, acc, stream, left))
      \<in> measure (\<lambda>(watch, take_n, marker, n, output, stream, left). pending_size stream)"
    if "Read stream = Some x2" "(r, stream') = x2"
    for watch :: "nat \<Rightarrow> bool" and take_n :: "nat \<Rightarrow> nat" and marker :: string
      and n :: nat and acc :: string and stream :: "read_result list"
      and left :: "straggler list" and x2 r stream'
    using less [of stream r stream'] that by simp
  show "((watch, take_n, marker, Suc n, acc @ c, stream', left),
         (watch, take_n, marker, n, acc, stream, left))
      \<in> measure (\<lambda>(watch, take_n, marker, n, output, stream, left). pending_size stream)"
    if "Read stream = Some x2" "(r, stream') = x2"
    for watch :: "nat \<Rightarrow> bool" and take_n :: "nat \<Rightarrow> nat" and marker :: string
      and n :: nat and acc :: string and stream :: "read_result list"
      and left :: "straggler list" and x2 r stream' and c :: string
    using less [of stream r stream'] that by simp
qed

declare streamReader_race.simps [simp del]

definition streamReader ::
  "platform \<Rightarrow> (nat \<Rightarrow> bool) \<Rightarrow> (nat \<Rightarrow> nat) \<Rightarrow> read_result list \<Rightarrow> straggler list \<Rightarrow> string
     \<Rightarrow> string task \<times> string \<times> nat \<times> read_result list \<times> straggler list" where
  "streamReader pf watch take_n stream left boundary =
     (let marker = boundary @ newLine pf in
      case streamReader_race watch take_n marker 0 [] stream left of
        (Rejected err, output, n, stream', left') \<Rightarrow> (Rejected err, output, n, stream', left')
      | (Pending, output, n, stream', left') \<Rightarrow> (Pending, output, n, stream', left')
      | (Resolved u, output, n, stream', left') \<Rightarrow>
          (Resolved (TrimSuffix output marker), output, n, stream', left'))"

text \<open>
  Modelled from the spec: \<open>await.FastAllOrError\<close> belongs to the library goasync; by the
  spec (single-command protocol, step 5) it waits for both tasks to complete
  successfully, or returns the first failure from either. With one failure the call
  returns it whatever the other task does; with two, the scheduling says which came
  first; with none and a task that never ends, the call never returns (\<open>None\<close>).
\<close>

definition FastAllOrError ::
  "bool \<Rightarrow> string task \<Rightarrow> string task \<Rightarrow> (error + string list) option" where
  "FastAllOrError second_first t1 t2 =
     (case (t1, t2) of
        (Rejected e1, Rejected e2) \<Rightarrow> Some (Inl (if second_first then e2 else e1))
      | (Rejected e1, _) \<Rightarrow> Some (Inl e1)
      | (_, Rejected e2) \<Rightarrow> Some (Inl e2)
      | (Resolved v1, Resolved v2) \<Rightarrow> Some (Inr [v1, v2])
      | _ \<Rightarrow> None)"

text \<open>
  When \<open>FastAllOrError\<close> returns a failure while the task of a pipe has not ended, that
  task's reader is blocked in \<open>Read\<close> and nothing in \<open>streamReader\<close> stops it: it is left
  behind on its pipe, with its marker and what it has read.
\<close>

definition abandon ::
  "(error + string list) option \<Rightarrow> string task \<Rightarrow> string \<Rightarrow> string \<Rightarrow> straggler list
     \<Rightarrow> straggler list" where
  "abandon joined t marker output left =
     (case (joined, t) of
        (Some (Inl err), Pending) \<Rightarrow>
          left @ [\<lparr>leftMarker = marker, leftOutput = output, leftStopping = False\<rparr>]
      | _ \<Rightarrow> left)"

section \<open>Exit, execute, Execute\<close>

definition Exit :: "platform \<Rightarrow> Shell \<Rightarrow> world \<Rightarrow> Shell \<times> world" where
  "Exit pf s w =
     (case backend s of
        None \<Rightarrow> (s, w)
      | Some b \<Rightarrow>
          (case Write b (''exit'' @ newLine pf) of
             (ignored, b1) \<Rightarrow>
               (s\<lparr>backend := None\<rparr>,
                w\<lparr>io := io w @ [EvWrite (''exit'' @ newLine pf)]
                       @ (if StdinCloser b1 then [EvClose] else []) @ [EvWait]\<rparr>)))"

text \<open>
  The framed command of \<open>execute\<close>: the format string
  \<open>%s; echo '%s'; [Console]::Error.WriteLine('%s')%s\<close> filled in.
\<close>

definition framed :: "platform \<Rightarrow> string \<Rightarrow> string \<Rightarrow> string \<Rightarrow> string" where
  "framed pf cmd outBoundary errBoundary =
     cmd @ ''; echo '' @ [CHR 0x27] @ outBoundary @ [CHR 0x27]
       @ ''; [Console]::Error.WriteLine('' @ [CHR 0x27] @ errBoundary @ [CHR 0x27] @ '')''
       @ newLine pf"

text \<open>
  \<open>execute\<close> returns the two texts and the error, or never returns (\<open>None\<close>), with the
  Shell and the world as it leaves them. The two \<open>streamReader\<close> tasks run concurrently,
  each on its own pipe; the log lists the reads of stdout before those of stderr. When
  one task fails the call returns; the other task has by then read what its pipe held,
  and when it has not ended its reader stays behind on the pipe (\<open>abandon\<close>).
\<close>

definition execute ::
  "platform \<Rightarrow> string \<Rightarrow> Shell \<Rightarrow> world
     \<Rightarrow> (string \<times> string \<times> error option) option \<times> Shell \<times> world" where
  "execute pf cmd s w =
     (case backend s of
        None \<Rightarrow>
          (Some ([], [], Some (Wrap (Err ''Cannot execute commands on closed shells.'') [cmd])),
           s, w)
      | Some b \<Rightarrow>
          (case createBoundary w of (outBoundary, w1) \<Rightarrow>
          (case createBoundary w1 of (errBoundary, w2) \<Rightarrow>
          (let full = framed pf cmd outBoundary errBoundary;
               w3 = w2\<lparr>io := io w2 @ [EvWrite full]\<rparr>
           in (case Write b full of
                (Some err, b1) \<Rightarrow>
                  (Some ([], [], Some (Wrap err [''Could not send PowerShell command'', cmd])),
                   s\<lparr>backend := Some b1\<rparr>, w3)
              | (None, b1) \<Rightarrow>
                  (case streamReader pf (watchOut (sched w3 (cycles w3)))
                          (takeOut (sched w3 (cycles w3))) (stdoutPending b1) (stdoutLeft b1)
                          outBoundary of (t1, output1, n1, q1, left1) \<Rightarrow>
                  (case streamReader pf (watchErr (sched w3 (cycles w3)))
                          (takeErr (sched w3 (cycles w3))) (stderrPending b1) (stderrLeft b1)
                          errBoundary of (t2, output2, n2, q2, left2) \<Rightarrow>
                  (let joined = FastAllOrError (errFirst (sched w3 (cycles w3))) t1 t2;
                       s4 = s\<lparr>backend := Some (b1\<lparr>stdoutPending := q1, stderrPending := q2,
                              stdoutLeft := abandon joined t1 (outBoundary @ newLine pf)
                                              output1 left1,
                              stderrLeft := abandon joined t2 (errBoundary @ newLine pf)
                                              output2 left2\<rparr>)\<rparr>;
                       w4 = w3\<lparr>io := io w3 @ replicate n1 (EvRead Stdout)
                                     @ replicate n2 (EvRead Stderr),
                                cycles := Suc (cycles w3)\<rparr>
                   in (case joined of
                        None \<Rightarrow> (None, s4, w4)
                      | Some (Inl err) \<Rightarrow>
                          (case (if Contains (ErrorText pf err) ''ParserError''
                                 then Exit pf s4 w4 else (s4, w4)) of
                             (s5, w5) \<Rightarrow>
                               (Some ([], [],
                                  Some (Wrap err [''Failed to read stdout/stderr steams''])),
                                s5, w5))
                      | Some (Inr results) \<Rightarrow>
                          (Some (results ! 0, results ! 1, None), s4, w4))))))))))"

text \<open>
  The loop of \<open>Execute\<close>, with its two accumulators.
\<close>

fun Execute_loop ::
  "platform \<Rightarrow> string \<Rightarrow> string \<Rightarrow> string list \<Rightarrow> Shell \<Rightarrow> world
     \<Rightarrow> (string \<times> string \<times> error option) option \<times> Shell \<times> world" where
  "Execute_loop pf stdout stderr [] s w = (Some (stdout, stderr, None), s, w)"
| "Execute_loop pf stdout stderr (cmd # cmds) s w =
     (case execute pf cmd s w of
        (None, s', w') \<Rightarrow> (None, s', w')
      | (Some (out, e, err), s', w') \<Rightarrow>
          (case err of
             Some er \<Rightarrow>
               (Some (stdout @ out, stderr @ e, Some (Wrap er [''failed to execute'', cmd])),
                s', w')
           | None \<Rightarrow> Execute_loop pf (stdout @ out) (stderr @ e) cmds s' w'))"

definition Execute ::
  "platform \<Rightarrow> string list \<Rightarrow> Shell \<Rightarrow> world
     \<Rightarrow> (string \<times> string \<times> error option) option \<times> Shell \<times> world" where
  "Execute pf cmds s w = Execute_loop pf [] [] cmds s w"

text \<open>
  \<open>Execute\<close> as a specification: the commands run in order through \<open>execute\<close>, the
  texts of the commands that succeed are concatenated, stdout with stdout and stderr
  with stderr, and the first failure ends the run with its error wrapped with the
  command that failed; the failing command adds no text.
\<close>

fun Execute_spec ::
  "platform \<Rightarrow> string list \<Rightarrow> Shell \<Rightarrow> world
     \<Rightarrow> (string \<times> string \<times> error option) option \<times> Shell \<times> world" where
  "Execute_spec pf [] s w = (Some ([], [], None), s, w)"
| "Execute_spec pf (cmd # cmds) s w =
     (case execute pf cmd s w of
        (None, s', w') \<Rightarrow> (None, s', w')
      | (Some (out, e, Some er), s', w') \<Rightarrow>
          (Some ([], [], Some (Wrap er [''failed to execute'', cmd])), s', w')
      | (Some (out, e, None), s', w') \<Rightarrow>
          (case Execute_spec pf cmds s' w' of
             (None, s'', w'') \<Rightarrow> (None, s'', w'')
           | (Some (out', e', r), s'', w'') \<Rightarrow> (Some (out @ out', e @ e', r), s'', w'')))"

section \<open>New\<close>

text \<open>
  The functional options. A decorator returns an error or the Shell it has set up.
\<close>

definition Backend :: "Starter option \<Rightarrow> Shell \<Rightarrow> error + Shell" where
  "Backend b s = Inr (s\<lparr>backend := b\<rparr>)"

definition Elevated :: "string list \<Rightarrow> Shell \<Rightarrow> error + Shell" where
  "Elevated sudoLoc s =
     (if length sudoLoc = 1 then Inr (s\<lparr>sudoLocation := sudoLoc ! 0\<rparr>)
      else Inr (s\<lparr>sudoLocation := ''sudo''\<rparr>))"

definition WorkingDir :: "string \<Rightarrow> Shell \<Rightarrow> error + Shell" where
  "WorkingDir v s = Inr (s\<lparr>wd := v\<rparr>)"

definition Env :: "(string \<times> string) list \<Rightarrow> Shell \<Rightarrow> error + Shell" where
  "Env v s = Inr (s\<lparr>env := v\<rparr>)"

definition EnvCombined :: "bool \<Rightarrow> Shell \<Rightarrow> error + Shell" where
  "EnvCombined v s = Inr (s\<lparr>envCombined := v\<rparr>)"

definition PwshLocation :: "string \<Rightarrow> Shell \<Rightarrow> error + Shell" where
  "PwshLocation path s = Inr (s\<lparr>pwshLocation := path\<rparr>)"

fun decorate :: "(Shell \<Rightarrow> error + Shell) list \<Rightarrow> Shell \<Rightarrow> error + Shell" where
  "decorate [] s = Inr s"
| "decorate (decorator # ds) s =
     (case decorator s of Inl e \<Rightarrow> Inl e | Inr s' \<Rightarrow> decorate ds s')"

text \<open>
  \<open>New\<close> in three steps: the options and the backend's settings, the lookup of the
  interpreter (\<open>New_pwsh\<close>), and the start of the process (\<open>New_start\<close>). \<open>local\<close> is the
  backend \<open>&backend.Local{}\<close>. A failed \<open>goerr.Check\<close> ends \<open>New\<close> with that error and no
  Shell.
\<close>

definition New_pwsh :: "Starter \<Rightarrow> Shell \<Rightarrow> world \<Rightarrow> (error + Shell) \<times> world" where
  "New_pwsh b s w =
     (if pwshLocation s = [] then
        (case LookPath b ''pwsh'' of
           Inr path \<Rightarrow> (Inr (s\<lparr>pwshLocation := path\<rparr>), w\<lparr>io := io w @ [EvLookPath ''pwsh'']\<rparr>)
         | Inl err \<Rightarrow>
             (case LookPath b ''powershell'' of
                Inl err' \<Rightarrow>
                  (Inl (Err ''Failed to locate a PowerShell binary''),
                   w\<lparr>io := io w @ [EvLookPath ''pwsh'', EvLookPath ''powershell'']\<rparr>)
              | Inr path \<Rightarrow>
                  (Inr (s\<lparr>pwshLocation := path\<rparr>),
                   w\<lparr>io := io w @ [EvLookPath ''pwsh'', EvLookPath ''powershell'']\<rparr>)))
      else (Inr s, w))"

definition New_start :: "Starter \<Rightarrow> Shell \<Rightarrow> world \<Rightarrow> (error + Shell) \<times> world" where
  "New_start b s w =
     (if sudoLocation s \<noteq> [] then
        (case (if sudoLocation s = ''sudo''
               then (case LookPath b ''sudo'' of
                       Inl err \<Rightarrow> (Inl (Err ''Failed to locate a sudo binary''),
                                   w\<lparr>io := io w @ [EvLookPath ''sudo'']\<rparr>)
                     | Inr path \<Rightarrow> (Inr (s\<lparr>sudoLocation := path\<rparr>),
                                    w\<lparr>io := io w @ [EvLookPath ''sudo'']\<rparr>))
               else (Inr s, w)) of
           (Inl e, w1) \<Rightarrow> (Inl e, w1)
         | (Inr s1, w1) \<Rightarrow>
             (case StartProcess b (sudoLocation s1)
                     [pwshLocation s1, ''-NoExit'', ''-Command'', ''-''] of
                Some e \<Rightarrow>
                  (Inl (Wrap e [''Failed to start powershell process with sudo'',
                                sudoLocation s1, pwshLocation s1]),
                   w1\<lparr>io := io w1 @ [EvStartProcess (sudoLocation s1)
                                       [pwshLocation s1, ''-NoExit'', ''-Command'', ''-'']]\<rparr>)
              | None \<Rightarrow>
                  (Inr s1,
                   w1\<lparr>io := io w1 @ [EvStartProcess (sudoLocation s1)
                                       [pwshLocation s1, ''-NoExit'', ''-Command'', ''-'']]\<rparr>)))
      else
        (case StartProcess b (pwshLocation s) [''-NoExit'', ''-Command'', ''-''] of
           Some e \<Rightarrow>
             (Inl (Wrap e [''Failed to start powershell process'', pwshLocation s]),
              w\<lparr>io := io w @ [EvStartProcess (pwshLocation s)
                                 [''-NoExit'', ''-Command'', ''-'']]\<rparr>)
         | None \<Rightarrow>
             (Inr s,
              w\<lparr>io := io w @ [EvStartProcess (pwshLocation s)
                                 [''-NoExit'', ''-Command'', ''-'']]\<rparr>)))"

definition New ::
  "Starter \<Rightarrow> (Shell \<Rightarrow> error + Shell) list \<Rightarrow> world \<Rightarrow> (error + Shell) \<times> world" where
  "New local decorators w =
     (case decorate decorators
             \<lparr>backend = None, env = [], envCombined = True, pwshLocation = [],
              sudoLocation = [], wd = []\<rparr> of
        Inl e \<Rightarrow> (Inl e, w)
      | Inr s0 \<Rightarrow>
          (let b = (case backend s0 of None \<Rightarrow> local | Some b0 \<Rightarrow> b0);
               s1 = s0\<lparr>backend := Some b\<rparr>;
               w1 = w\<lparr>io := io w @ [EvSetEnv (env s1) (envCombined s1),
                                     EvSetWorkingDir (wd s1)]\<rparr>
           in case New_pwsh b s1 w1 of
                (Inl e, w2) \<Rightarrow> (Inl e, w2)
              | (Inr s2, w2) \<Rightarrow> New_start b s2 w2))"

section \<open>Observations and a sample session\<close>

text \<open>
  What a pipe still holds as text, and the names looked up and the processes started
  according to a log.
\<close>

fun payload :: "read_result list \<Rightarrow> string" where
  "payload [] = []"
| "payload (Chunk c # q) = c @ payload q"
| "payload (Failure e # q) = payload q"

fun lookups :: "io_event list \<Rightarrow> string list" where
  "lookups [] = []"
| "lookups (EvLookPath name # evs) = name # lookups evs"
| "lookups (ev # evs) = lookups evs"

fun starts :: "io_event list \<Rightarrow> (string \<times> string list) list" where
  "starts [] = []"
| "starts (EvStartProcess c args # evs) = (c, args) # starts evs"
| "starts (ev # evs) = starts evs"

text \<open>
  The world of \<open>execute\<close> once the framed command is written, and once \<open>n1\<close> reads of
  stdout and \<open>n2\<close> reads of stderr have returned.
\<close>

definition after_write :: "platform \<Rightarrow> string \<Rightarrow> world \<Rightarrow> world" where
  "after_write pf cmd w =
     w\<lparr>drawn := drawn w + 24,
       io := io w @ [EvWrite (framed pf cmd (fst (createBoundary w))
                (fst (createBoundary (w\<lparr>drawn := drawn w + 12\<rparr>))))]\<rparr>"

definition reads_done :: "platform \<Rightarrow> string \<Rightarrow> nat \<Rightarrow> nat \<Rightarrow> world \<Rightarrow> world" where
  "reads_done pf cmd n1 n2 w =
     w\<lparr>drawn := drawn w + 24,
       io := io w @ [EvWrite (framed pf cmd (fst (createBoundary w))
                (fst (createBoundary (w\<lparr>drawn := drawn w + 12\<rparr>))))]
              @ replicate n1 (EvRead Stdout) @ replicate n2 (EvRead Stderr),
       cycles := Suc (cycles w)\<rparr>"

text \<open>
  A concrete platform, backend and world. The rendering of an error joins the messages
  of its wrappers and its cause. The sample process answers every write with the given
  read results; the entropy makes the first two sentinels \<open>$gopwsh0123456789ab$\<close> and
  \<open>$gopwshcdef01234567$\<close>; every polling goroutine acts as soon as it can, and a reader
  left behind on a pipe is served before the reader of the call.
\<close>

fun sample_text :: "error \<Rightarrow> string" where
  "sample_text (Err m) = m"
| "sample_text (Wrap e msgs) = concat (map (\<lambda>m. m @ '': '') msgs) @ sample_text e"

definition sample_platform :: platform where
  "sample_platform = \<lparr>GOOS = ''linux'', ErrorText = sample_text\<rparr>"

definition sample_backend :: "write_result \<Rightarrow> Starter" where
  "sample_backend answer =
     \<lparr>LookPath = (\<lambda>file. if file = ''powershell'' then Inr ''/bin/powershell''
                          else Inl (Err ''executable file not found'')),
      StartProcess = (\<lambda>c args. None),
      StdinWrite = (\<lambda>earlier data. answer),
      StdinCloser = True,
      written = [],
      stdoutPending = [],
      stderrPending = [],
      stdoutLeft = [],
      stderrLeft = []\<rparr>"

definition sample_shell :: "Starter option \<Rightarrow> Shell" where
  "sample_shell b =
     \<lparr>backend = b, env = [], envCombined = True, pwshLocation = ''/bin/powershell'',
      sudoLocation = [], wd = []\<rparr>"

definition sample_world :: world where
  "sample_world =
     \<lparr>io = [], entropy = (\<lambda>i. i), drawn = 0,
      sched = (\<lambda>k. \<lparr>watchOut = (\<lambda>n. True), watchErr = (\<lambda>n. True),
                     takeOut = (\<lambda>n. 1), takeErr = (\<lambda>n. 1), errFirst = False\<rparr>),
      cycles = 0\<rparr>"

text \<open>
  Sample processes. \<open>hello_backend\<close> prints \<open>hello\<close> and a warning on stderr, in pieces
  that cut through the sentinels; \<open>echo_marker_backend\<close> prints the text \<open>ParserError\<close>
  as ordinary output; \<open>parse_failure_backend\<close> reports a parse failure on stderr and
  never prints a sentinel; \<open>eof_backend\<close> prints \<open>partial\<close> and then its stdout ends;
  \<open>two_step_backend\<close> answers its first command like a well-behaved process and its
  second like \<open>eof_backend\<close>; the stdout of \<open>boom_backend\<close> fails on the first command
  with nothing on stderr, and its second command prints \<open>ok\<close> followed by the sentinels
  of that command.
\<close>

definition hello_backend :: Starter where
  "hello_backend = sample_backend
     (WriteOk [Chunk ''hel'', Chunk (''lo'' @ [CHR 0x0A] @ ''$gopwsh01''),
               Chunk (''23456789ab$'' @ [CHR 0x0A])]
              [Chunk ''warning'', Chunk ([CHR 0x0A] @ ''$gopwshcdef01234567$'' @ [CHR 0x0A])])"

definition echo_marker_backend :: Starter where
  "echo_marker_backend = sample_backend
     (WriteOk [Chunk (''ParserError'' @ [CHR 0x0A]), Chunk (''$gopwsh0123456789ab$'' @ [CHR 0x0A])]
              [Chunk (''$gopwshcdef01234567$'' @ [CHR 0x0A])])"

definition parse_failure_backend :: Starter where
  "parse_failure_backend = sample_backend
     (WriteOk [] [Chunk ''ParserError: (:) [], ParentContainsErrorRecordException''])"

definition eof_backend :: Starter where
  "eof_backend = sample_backend (WriteOk [Chunk ''partial'', Failure (Err ''EOF'')] [])"

definition two_step_backend :: Starter where
  "two_step_backend =
     (sample_backend (WriteOk [] []))
       \<lparr>StdinWrite := (\<lambda>earlier data.
          if earlier = []
          then WriteOk [Chunk (''hello'' @ [CHR 0x0A] @ ''$gopwsh0123456789ab$'' @ [CHR 0x0A])]
                 [Chunk (''$gopwshcdef01234567$'' @ [CHR 0x0A])]
          else WriteOk [Chunk ''partial'', Failure (Err ''EOF'')] [])\<rparr>"

definition boom_backend :: Starter where
  "boom_backend =
     (sample_backend (WriteOk [] []))
       \<lparr>StdinWrite := (\<lambda>earlier data.
          if earlier = []
          then WriteOk [Failure (Err ''boom'')] []
          else WriteOk [Chunk (''ok'' @ [CHR 0x0A] @ ''$gopwsh89abcdef0123$'' @ [CHR 0x0A])]
                 [Chunk (''$gopwsh456789abcdef$'' @ [CHR 0x0A])])\<rparr>"

section \<open>Quoting\<close>

lemma ReplaceAll_single:
  "ReplaceAll s [q] new = concat (map (\<lambda>c. if c = q then new else [c]) s)"
proof (induction s)
  case Nil
  show ?case by (simp add: ReplaceAll.simps [of "[]"])
next
  case (Cons a s)
  show ?case
    using Cons.IH by (auto simp add: ReplaceAll.simps [of "a # s"])
qed

text \<open>
  C9. For every string \<open>s\<close>, \<open>QuoteArg s\<close> is a single quote, then \<open>s\<close> with every
  single-quote character doubled, then a closing single quote; \<open>QuoteArg "a'b"\<close> is
  \<open>'a''b'\<close> and \<open>QuoteArg ""\<close> is \<open>''\<close>.
\<close>

theorem QuoteArg_correct:
  "QuoteArg s = QuoteArg_spec s
   \<and> QuoteArg [CHR ''a'', CHR 0x27, CHR ''b'']
       = [CHR 0x27, CHR ''a'', CHR 0x27, CHR 0x27, CHR ''b'', CHR 0x27]
   \<and> QuoteArg [] = [CHR 0x27, CHR 0x27]"
  by (simp add: QuoteArg_def QuoteArg_spec_def double_quotes_spec_def ReplaceAll_single)

section \<open>Exit and execute, case by case\<close>


lemma execute_on_closed:
  "backend s = None \<Longrightarrow>
   execute pf cmd s w =
     (Some ([], [], Some (Wrap (Err ''Cannot execute commands on closed shells.'') [cmd])), s, w)"
  by (simp add: execute_def)

lemma Execute_loop_on_closed:
  "backend s = None \<Longrightarrow>
   Execute_loop pf out err (cmd # cmds) s w =
     (Some (out, err, Some (Wrap (Wrap (Err ''Cannot execute commands on closed shells.'') [cmd])
        [''failed to execute'', cmd])), s, w)"
  by (simp add: execute_on_closed)

lemma Exit_closed: "backend s = None \<Longrightarrow> Exit pf s w = (s, w)"
  by (simp add: Exit_def)

lemma Write_StdinCloser: "StdinCloser (snd (Write b d)) = StdinCloser b"
  by (simp add: Write_def split: write_result.splits)

lemma Exit_open:
  "backend s = Some b \<Longrightarrow>
   Exit pf s w =
     (s\<lparr>backend := None\<rparr>,
      w\<lparr>io := io w @ [EvWrite (''exit'' @ newLine pf)]
             @ (if StdinCloser b then [EvClose] else []) @ [EvWait]\<rparr>)"
  using Write_StdinCloser [of b "''exit'' @ newLine pf"]
  by (auto simp: Exit_def split: prod.splits)

lemma Exit_releases: "backend (fst (Exit pf s w)) = None"
  by (cases "backend s") (simp_all add: Exit_closed Exit_open)

lemma Exit_drawn: "drawn (snd (Exit pf s w)) = drawn w"
  by (cases "backend s") (simp_all add: Exit_closed Exit_open)

lemma Execute_loop_stays_closed:
  "backend s = None \<Longrightarrow> backend (fst (snd (Execute_loop pf out err cmds s w))) = None"
  by (cases cmds) (simp_all add: execute_on_closed)

lemma createBoundary_world: "snd (createBoundary w) = w\<lparr>drawn := drawn w + 12\<rparr>"
  by (simp add: createBoundary_def Hex_def)

lemma createBoundary_eq:
  "createBoundary w = (fst (createBoundary w), w\<lparr>drawn := drawn w + 12\<rparr>)"
  using createBoundary_world [of w] by (cases "createBoundary w") simp

lemma createBoundary_next:
  "createBoundary (w\<lparr>drawn := drawn w + 12\<rparr>)
     = (fst (createBoundary (w\<lparr>drawn := drawn w + 12\<rparr>)), w\<lparr>drawn := drawn w + 24\<rparr>)"
  using createBoundary_eq [of "w\<lparr>drawn := drawn w + 12\<rparr>"] by (simp add: add.commute)

lemma execute_write_fails:
  assumes "backend s = Some b"
    and "Write b (framed pf cmd (fst (createBoundary w))
            (fst (createBoundary (w\<lparr>drawn := drawn w + 12\<rparr>)))) = (Some err, b1)"
  shows "execute pf cmd s w =
     (Some ([], [], Some (Wrap err [''Could not send PowerShell command'', cmd])),
      s\<lparr>backend := Some b1\<rparr>, after_write pf cmd w)"
  unfolding execute_def after_write_def
  apply (subst createBoundary_eq [of w])
  apply (simp only: assms(1) option.case prod.case)
  apply (subst createBoundary_next)
  apply (simp add: Let_def assms(2))
  done

lemma execute_reads:
  assumes "backend s = Some b"
    and "Write b (framed pf cmd (fst (createBoundary w))
            (fst (createBoundary (w\<lparr>drawn := drawn w + 12\<rparr>)))) = (None, b1)"
    and "streamReader pf (watchOut (sched w (cycles w))) (takeOut (sched w (cycles w)))
            (stdoutPending b1) (stdoutLeft b1) (fst (createBoundary w))
           = (t1, output1, n1, q1, left1)"
    and "streamReader pf (watchErr (sched w (cycles w))) (takeErr (sched w (cycles w)))
            (stderrPending b1) (stderrLeft b1)
            (fst (createBoundary (w\<lparr>drawn := drawn w + 12\<rparr>)))
           = (t2, output2, n2, q2, left2)"
    and "joined = FastAllOrError (errFirst (sched w (cycles w))) t1 t2"
    and "b2 = b1\<lparr>stdoutPending := q1, stderrPending := q2,
                  stdoutLeft := abandon joined t1 (fst (createBoundary w) @ newLine pf)
                                  output1 left1,
                  stderrLeft := abandon joined t2
                                  (fst (createBoundary (w\<lparr>drawn := drawn w + 12\<rparr>))
                                     @ newLine pf) output2 left2\<rparr>"
  shows "execute pf cmd s w =
     (case joined of
        None \<Rightarrow> (None, s\<lparr>backend := Some b2\<rparr>, reads_done pf cmd n1 n2 w)
      | Some (Inl err) \<Rightarrow>
          (if Contains (ErrorText pf err) ''ParserError''
           then (Some ([], [], Some (Wrap err [''Failed to read stdout/stderr steams''])),
                 Exit pf (s\<lparr>backend := Some b2\<rparr>) (reads_done pf cmd n1 n2 w))
           else (Some ([], [], Some (Wrap err [''Failed to read stdout/stderr steams''])),
                 s\<lparr>backend := Some b2\<rparr>, reads_done pf cmd n1 n2 w))
      | Some (Inr results) \<Rightarrow>
          (Some (results ! 0, results ! 1, None), s\<lparr>backend := Some b2\<rparr>,
           reads_done pf cmd n1 n2 w))"
  unfolding execute_def reads_done_def assms(6)
  apply (subst createBoundary_eq [of w])
  apply (simp only: assms(1) option.case prod.case)
  apply (subst createBoundary_next)
  apply (simp add: Let_def assms(2,3,4) assms(5) [symmetric]
      split: option.splits sum.splits prod.splits)
  done

lemma execute_open_cases:
  assumes "backend s = Some b"
  obtains
    (write_fails) err b1 where
      "Write b (framed pf cmd (fst (createBoundary w))
            (fst (createBoundary (w\<lparr>drawn := drawn w + 12\<rparr>)))) = (Some err, b1)"
      "execute pf cmd s w =
         (Some ([], [], Some (Wrap err [''Could not send PowerShell command'', cmd])),
          s\<lparr>backend := Some b1\<rparr>, after_write pf cmd w)"
  | (hangs) b2 n1 n2 where
      "execute pf cmd s w = (None, s\<lparr>backend := Some b2\<rparr>, reads_done pf cmd n1 n2 w)"
  | (fatal) err b2 n1 n2 where
      "Contains (ErrorText pf err) ''ParserError''"
      "execute pf cmd s w =
         (Some ([], [], Some (Wrap err [''Failed to read stdout/stderr steams''])),
          Exit pf (s\<lparr>backend := Some b2\<rparr>) (reads_done pf cmd n1 n2 w))"
  | (read_fails) err b2 n1 n2 where
      "\<not> Contains (ErrorText pf err) ''ParserError''"
      "execute pf cmd s w =
         (Some ([], [], Some (Wrap err [''Failed to read stdout/stderr steams''])),
          s\<lparr>backend := Some b2\<rparr>, reads_done pf cmd n1 n2 w)"
  | (succeeds) out e b2 n1 n2 where
      "execute pf cmd s w = (Some (out, e, None), s\<lparr>backend := Some b2\<rparr>, reads_done pf cmd n1 n2 w)"
proof -
  let ?full = "framed pf cmd (fst (createBoundary w))
            (fst (createBoundary (w\<lparr>drawn := drawn w + 12\<rparr>)))"
  obtain r b1 where wr: "Write b ?full = (r, b1)" by (cases "Write b ?full")
  show thesis
  proof (cases r)
    case (Some err)
    with wr write_fails execute_write_fails [OF assms] show thesis by blast
  next
    case None
    obtain t1 output1 n1 q1 left1 where r1:
      "streamReader pf (watchOut (sched w (cycles w))) (takeOut (sched w (cycles w)))
            (stdoutPending b1) (stdoutLeft b1) (fst (createBoundary w))
           = (t1, output1, n1, q1, left1)"
      using prod_cases5 by blast
    obtain t2 output2 n2 q2 left2 where r2:
      "streamReader pf (watchErr (sched w (cycles w))) (takeErr (sched w (cycles w)))
            (stderrPending b1) (stderrLeft b1)
            (fst (createBoundary (w\<lparr>drawn := drawn w + 12\<rparr>)))
           = (t2, output2, n2, q2, left2)"
      using prod_cases5 by blast
    note ex = execute_reads [OF assms wr [unfolded None] r1 r2 refl refl]
    show thesis
    proof (cases "FastAllOrError (errFirst (sched w (cycles w))) t1 t2")
      case None
      with ex hangs show thesis by simp
    next
      case (Some v)
      show thesis
      proof (cases v)
        case (Inl err)
        show thesis
        proof (cases "Contains (ErrorText pf err) ''ParserError''")
          case True
          with ex Some Inl fatal show thesis by simp
        next
          case False
          with ex Some Inl read_fails show thesis by simp
        qed
      next
        case (Inr results)
        with ex Some succeeds show thesis by simp
      qed
    qed
  qed
qed

lemma execute_open_log:
  assumes "backend s = Some b"
  shows "\<exists>rest. io (snd (snd (execute pf cmd s w)))
           = io w @ EvWrite (framed pf cmd (fst (createBoundary w))
                (fst (createBoundary (snd (createBoundary w))))) # rest
         \<and> (\<forall>d. EvWrite d \<in> set rest \<longrightarrow>
               d = ''exit'' @ newLine pf \<and> backend (fst (snd (execute pf cmd s w))) = None)"
  using assms
  by (cases rule: execute_open_cases [of s b pf cmd w])
     (auto simp: createBoundary_world after_write_def reads_done_def Exit_open)

lemma execute_open_drawn:
  assumes "backend s = Some b"
  shows "drawn (snd (snd (execute pf cmd s w))) = drawn w + 24"
  using assms
  by (cases rule: execute_open_cases [of s b pf cmd w])
     (auto simp: after_write_def reads_done_def Exit_open)

lemma execute_failure_empty:
  assumes "fst (execute pf cmd s w) = Some (out, e, Some er)"
  shows "out = [] \<and> e = []"
proof (cases "backend s")
  case None
  with assms show ?thesis by (simp add: execute_on_closed)
next
  case (Some b)
  then show ?thesis
    using assms by (cases rule: execute_open_cases [of s b pf cmd w]) auto
qed

lemma execute_read_failure:
  assumes "backend s = Some b"
    and "fst (execute pf cmd s w)
           = Some (out, e, Some (Wrap err [''Failed to read stdout/stderr steams'']))"
  shows "(Contains (ErrorText pf err) ''ParserError'' \<longrightarrow>
            backend (fst (snd (execute pf cmd s w))) = None)
       \<and> (\<not> Contains (ErrorText pf err) ''ParserError'' \<longrightarrow>
            (\<exists>b'. backend (fst (snd (execute pf cmd s w))) = Some b'))"
  using assms(1)
proof (cases rule: execute_open_cases [of s b pf cmd w])
  case (write_fails err' b1)
  with assms(2) show ?thesis by simp
next
  case (hangs b2 n1 n2)
  with assms(2) show ?thesis by simp
next
  case (fatal err' b2 n1 n2)
  with assms(2) have "err' = err" by simp
  with fatal Exit_releases [of pf "s\<lparr>backend := Some b2\<rparr>" "reads_done pf cmd n1 n2 w"]
  show ?thesis by simp
next
  case (read_fails err' b2 n1 n2)
  with assms(2) have "err' = err" by simp
  with read_fails show ?thesis by simp
next
  case (succeeds out' e' b2 n1 n2)
  with assms(2) show ?thesis by simp
qed

lemma Execute_rejects_closed:
  assumes "backend s = None" and "cmds \<noteq> []"
  shows "Execute pf cmds s w =
     (Some ([], [], Some (Wrap (Wrap (Err ''Cannot execute commands on closed shells.'') [hd cmds])
        [''failed to execute'', hd cmds])), s, w)"
  using assms by (cases cmds) (simp_all add: Execute_def execute_on_closed)

section \<open>Sentinels and the sample session\<close>

lemma hexDigit_hex: "hexDigit v \<in> set ''0123456789abcdef''"
proof -
  have "v mod 16 < length ''0123456789abcdef''" by simp
  then show ?thesis unfolding hexDigit_def by (rule nth_mem)
qed

lemma createBoundary_text:
  "fst (createBoundary w)
     = ''$gopwsh'' @ map (\<lambda>i. hexDigit (entropy w (drawn w + i))) [0..<12] @ ''$''"
  by (simp add: createBoundary_def Hex_def)

lemma createBoundary_chars:
  "set (fst (createBoundary w)) \<subseteq> set ''$gopwsh0123456789abcdef''"
proof -
  have "set (map (\<lambda>i. hexDigit (entropy w (drawn w + i))) [0..<12])
      \<subseteq> set ''0123456789abcdef''"
    using hexDigit_hex by auto
  then show ?thesis
    unfolding createBoundary_text by auto
qed

lemma sample_out_sentinel:
  "createBoundary sample_world = (''$gopwsh0123456789ab$'', sample_world\<lparr>drawn := 12\<rparr>)"
  by (simp add: createBoundary_def Hex_def hexDigit_def sample_world_def upt_rec)

lemma sample_err_sentinel:
  "createBoundary (sample_world\<lparr>drawn := 12\<rparr>)
     = (''$gopwshcdef01234567$'', sample_world\<lparr>drawn := 24\<rparr>)"
  by (simp add: createBoundary_def Hex_def hexDigit_def sample_world_def upt_rec)

section \<open>Execute without commands and on a closed session\<close>

text \<open>
  C10. \<open>Execute\<close> with zero commands returns empty stdout, empty stderr and no error,
  and leaves the Shell and the world (the log of backend calls included) as they were;
  so also when the session is already closed, where no closed-session error is produced.
\<close>

theorem Execute_no_commands:
  "Execute pf [] s w = (Some ([], [], None), s, w)
   \<and> Execute pf [] (s\<lparr>backend := None\<rparr>) w = (Some ([], [], None), s\<lparr>backend := None\<rparr>, w)"
  by (simp add: Execute_def)

text \<open>
  C4, as stated, fails: on a closed session \<open>Execute\<close> with no commands returns no
  error at all.
\<close>

theorem Execute_closed_counterexample:
  "\<not> (\<exists>e. fst (Execute sample_platform [] (sample_shell None) sample_world)
           = Some ([], [], Some e))"
  by (simp add: Execute_def)

text \<open>
  C4, amended. Every \<open>Execute\<close> call with at least one command on a closed session
  (backend released) returns at once with the closed-shell error for its first command,
  wrapped as that command's failure; the Shell and the world are unchanged, so nothing
  was written, read or looked up.
\<close>

theorem Execute_closed:
  assumes "backend s = None" and "cmds \<noteq> []"
  shows "Execute pf cmds s w =
     (Some ([], [], Some (Wrap (Wrap (Err ''Cannot execute commands on closed shells.'') [hd cmds])
        [''failed to execute'', hd cmds])), s, w)"
  using assms by (cases cmds) (simp_all add: Execute_def execute_on_closed)

theorem Execute_closed_witness:
  "backend (sample_shell None) = None \<and> [''ls''] \<noteq> [] \<and>
   Execute sample_platform [''ls''] (sample_shell None) sample_world =
     (Some ([], [], Some (Wrap (Wrap (Err ''Cannot execute commands on closed shells.'') [''ls''])
        [''failed to execute'', ''ls''])), sample_shell None, sample_world)"
  using Execute_closed [of "sample_shell None" "[''ls'']" sample_platform sample_world]
  by (simp add: sample_shell_def)

section \<open>Exit\<close>

text \<open>
  C7. \<open>Exit\<close> on a closed session changes nothing. On an open session it writes
  \<open>exit\<close> and the newline (the result of the write is ignored), closes stdin when the
  handle is a closer, waits, and releases the backend. After \<open>Exit\<close> the session is
  closed, a second \<open>Exit\<close> changes nothing, and a closed session stays closed under
  \<open>execute\<close> and \<open>Execute\<close>.
\<close>

theorem Exit_idempotent_terminal:
  "(backend s = None \<longrightarrow> Exit pf s w = (s, w))
   \<and> (\<forall>b. backend s = Some b \<longrightarrow>
         Exit pf s w =
           (s\<lparr>backend := None\<rparr>,
            w\<lparr>io := io w @ [EvWrite (''exit'' @ newLine pf)]
                   @ (if StdinCloser b then [EvClose] else []) @ [EvWait]\<rparr>))
   \<and> backend (fst (Exit pf s w)) = None
   \<and> (case Exit pf s w of (s', w') \<Rightarrow> Exit pf s' w' = (s', w'))
   \<and> (backend s = None \<longrightarrow>
         backend (fst (snd (execute pf cmd s w))) = None
         \<and> backend (fst (snd (Execute pf cmds s w))) = None)"
proof -
  have idem: "case Exit pf s w of (s', w') \<Rightarrow> Exit pf s' w' = (s', w')"
    using Exit_releases [of pf s w] by (auto simp: Exit_closed split: prod.splits)
  show ?thesis
    using idem
    by (simp add: Exit_closed Exit_open Exit_releases execute_on_closed Execute_def
        Execute_loop_stays_closed)
qed

theorem Exit_idempotent_terminal_witness:
  "Exit sample_platform (sample_shell None) sample_world = (sample_shell None, sample_world)
   \<and> Exit sample_platform (sample_shell (Some (sample_backend (WriteOk [] [])))) sample_world
       = (sample_shell None,
          sample_world\<lparr>io := [EvWrite (''exit'' @ [CHR 0x0A]), EvClose, EvWait]\<rparr>)
   \<and> backend (fst (snd (Execute sample_platform [''ls''] (sample_shell None) sample_world)))
       = None"
  using Exit_idempotent_terminal
      [of "sample_shell None" sample_platform sample_world "''ls''" "[''ls'']"]
    Exit_idempotent_terminal
      [of "sample_shell (Some (sample_backend (WriteOk [] [])))" sample_platform sample_world
        "''ls''" "[''ls'']"]
  by (simp add: sample_shell_def sample_backend_def sample_world_def sample_platform_def
      newLine_def)

section \<open>The framed command\<close>

text \<open>
  C5. On an open session the first thing \<open>execute\<close> does to the backend is one write to
  stdin of exactly the command, then \<open>; echo '<outSentinel>';
  [Console]::Error.WriteLine('<errSentinel>')\<close>, then the platform newline (CR LF on
  windows, LF elsewhere); the only other write the call can make is the \<open>exit\<close> line of
  a session it closes. When that write fails, the call returns the error wrapped with
  the command, the session keeps its backend, and nothing else is done to the backend.
\<close>

theorem execute_wire_format:
  assumes "backend s = Some b"
    and "createBoundary w = (outSentinel, w1)" and "createBoundary w1 = (errSentinel, w2)"
    and "full = cmd @ ''; echo '' @ [CHR 0x27] @ outSentinel @ [CHR 0x27]
           @ ''; [Console]::Error.WriteLine('' @ [CHR 0x27] @ errSentinel @ [CHR 0x27] @ '')''
           @ (if GOOS pf = ''windows'' then [CHR 0x0D, CHR 0x0A] else [CHR 0x0A])"
  shows "(\<exists>rest. io (snd (snd (execute pf cmd s w))) = io w @ EvWrite full # rest
            \<and> (\<forall>d. EvWrite d \<in> set rest \<longrightarrow>
                  d = ''exit'' @ newLine pf
                  \<and> backend (fst (snd (execute pf cmd s w))) = None))
     \<and> (\<forall>e. StdinWrite b (written b) full = WriteErr e \<longrightarrow>
           fst (execute pf cmd s w)
             = Some ([], [], Some (Wrap e [''Could not send PowerShell command'', cmd]))
           \<and> (\<exists>b1. backend (fst (snd (execute pf cmd s w))) = Some b1)
           \<and> io (snd (snd (execute pf cmd s w))) = io w @ [EvWrite full])"
proof -
  have w1: "w1 = w\<lparr>drawn := drawn w + 12\<rparr>" and o: "outSentinel = fst (createBoundary w)"
    using assms(2) createBoundary_world [of w] by auto
  have e: "errSentinel = fst (createBoundary (w\<lparr>drawn := drawn w + 12\<rparr>))"
    using assms(3) w1 by auto
  have full: "full = framed pf cmd (fst (createBoundary w))
      (fst (createBoundary (w\<lparr>drawn := drawn w + 12\<rparr>)))"
    by (simp add: assms(4) framed_def newLine_def o e)
  have log: "\<exists>rest. io (snd (snd (execute pf cmd s w))) = io w @ EvWrite full # rest
            \<and> (\<forall>d. EvWrite d \<in> set rest \<longrightarrow>
                  d = ''exit'' @ newLine pf
                  \<and> backend (fst (snd (execute pf cmd s w))) = None)"
    using execute_open_log [OF assms(1), of pf cmd w]
    by (simp add: full createBoundary_world)
  have fails: "fst (execute pf cmd s w)
             = Some ([], [], Some (Wrap e [''Could not send PowerShell command'', cmd]))
           \<and> (\<exists>b1. backend (fst (snd (execute pf cmd s w))) = Some b1)
           \<and> io (snd (snd (execute pf cmd s w))) = io w @ [EvWrite full]"
    if "StdinWrite b (written b) full = WriteErr e" for e
  proof -
    have "Write b full = (Some e, b\<lparr>written := written b @ [full]\<rparr>)"
      using that by (simp add: Write_def)
    then show ?thesis
      using execute_write_fails [OF assms(1), of pf cmd w e "b\<lparr>written := written b @ [full]\<rparr>"]
      by (simp add: full after_write_def)
  qed
  show ?thesis using log fails by blast
qed

theorem execute_wire_format_witness:
  "fst (execute sample_platform ''ls''
          (sample_shell (Some (sample_backend (WriteErr (Err ''broken pipe''))))) sample_world)
     = Some ([], [], Some (Wrap (Err ''broken pipe'') [''Could not send PowerShell command'', ''ls'']))
   \<and> io (snd (snd (execute sample_platform ''ls''
          (sample_shell (Some (sample_backend (WriteErr (Err ''broken pipe''))))) sample_world)))
     = [EvWrite (''ls; echo '' @ [CHR 0x27] @ ''$gopwsh0123456789ab$'' @ [CHR 0x27]
           @ ''; [Console]::Error.WriteLine('' @ [CHR 0x27] @ ''$gopwshcdef01234567$''
           @ [CHR 0x27] @ '')'' @ [CHR 0x0A])]"
  using execute_wire_format
      [of "sample_shell (Some (sample_backend (WriteErr (Err ''broken pipe''))))"
          "sample_backend (WriteErr (Err ''broken pipe''))"
          sample_world "''$gopwsh0123456789ab$''" "sample_world\<lparr>drawn := 12\<rparr>"
          "''$gopwshcdef01234567$''" "sample_world\<lparr>drawn := 24\<rparr>"
          "''ls; echo '' @ [CHR 0x27] @ ''$gopwsh0123456789ab$'' @ [CHR 0x27]
           @ ''; [Console]::Error.WriteLine('' @ [CHR 0x27] @ ''$gopwshcdef01234567$''
           @ [CHR 0x27] @ '')'' @ [CHR 0x0A]" "''ls''" sample_platform,
       OF _ sample_out_sentinel sample_err_sentinel]
  by (simp add: sample_shell_def sample_backend_def sample_platform_def)
     (simp add: sample_world_def)

section \<open>Sentinels are fresh and well-formed\<close>

text \<open>
  C6. A sentinel is a \<open>$\<close>, the namespace \<open>gopwsh\<close>, 12 hexadecimal characters and a
  closing \<open>$\<close>, 20 characters in all; the 12 characters are drawn from entropy not used
  before, and the draw moves on by 12. A single-command cycle on an open session draws
  exactly two sentinels, one after the other, and frames the command with them.
\<close>

theorem createBoundary_fresh:
  "(\<exists>h. fst (createBoundary w) = CHR ''$'' # ''gopwsh'' @ h @ ''$''
        \<and> length h = 12 \<and> set h \<subseteq> set ''0123456789abcdef''
        \<and> h = map (\<lambda>i. hexDigit (entropy w (drawn w + i))) [0..<12])
   \<and> length (fst (createBoundary w)) = 20
   \<and> snd (createBoundary w) = w\<lparr>drawn := drawn w + 12\<rparr>
   \<and> (\<forall>b. backend s = Some b \<longrightarrow>
         (\<exists>rest. io (snd (snd (execute pf cmd s w)))
            = io w @ EvWrite (framed pf cmd (fst (createBoundary w))
                 (fst (createBoundary (snd (createBoundary w))))) # rest)
         \<and> drawn (snd (snd (execute pf cmd s w))) = drawn w + 24)"
proof -
  have hex: "set (map (\<lambda>i. hexDigit (entropy w (drawn w + i))) [0..<12])
      \<subseteq> set ''0123456789abcdef''"
    using hexDigit_hex by auto
  have shape: "\<exists>h. fst (createBoundary w) = CHR ''$'' # ''gopwsh'' @ h @ ''$''
        \<and> length h = 12 \<and> set h \<subseteq> set ''0123456789abcdef''
        \<and> h = map (\<lambda>i. hexDigit (entropy w (drawn w + i))) [0..<12]"
    using hex by (simp add: createBoundary_text)
  have len: "length (fst (createBoundary w)) = 20"
    by (simp add: createBoundary_text)
  have two: "(\<exists>rest. io (snd (snd (execute pf cmd s w)))
            = io w @ EvWrite (framed pf cmd (fst (createBoundary w))
                 (fst (createBoundary (snd (createBoundary w))))) # rest)
         \<and> drawn (snd (snd (execute pf cmd s w))) = drawn w + 24"
    if "backend s = Some b" for b
    using execute_open_log [OF that, of pf cmd w] execute_open_drawn [OF that, of pf cmd w]
    by blast
  show ?thesis
    using shape len two createBoundary_world [of w] by blast
qed

theorem createBoundary_fresh_witness:
  "fst (createBoundary sample_world) = ''$gopwsh0123456789ab$''
   \<and> length (fst (createBoundary sample_world)) = 20
   \<and> fst (createBoundary (snd (createBoundary sample_world))) = ''$gopwshcdef01234567$''
   \<and> drawn (snd (snd (execute sample_platform ''ls''
        (sample_shell (Some (sample_backend (WriteErr (Err ''broken pipe''))))) sample_world)))
       = 24"
  using createBoundary_fresh
      [of sample_world "sample_shell (Some (sample_backend (WriteErr (Err ''broken pipe''))))"
          sample_platform "''ls''"]
    createBoundary_fresh [of "sample_world\<lparr>drawn := 12\<rparr>"]
  by (simp add: sample_shell_def sample_world_def hexDigit_def upt_rec)

section \<open>New: which interpreter\<close>

lemma lookups_append: "lookups (xs @ ys) = lookups xs @ lookups ys"
  by (induction xs rule: lookups.induct) simp_all

lemma starts_append: "starts (xs @ ys) = starts xs @ starts ys"
  by (induction xs rule: starts.induct) simp_all

lemma New_start_lookups:
  "lookups (io (snd (New_start b s w)))
     = lookups (io w) @ (if sudoLocation s = ''sudo'' then [''sudo''] else [])"
  by (simp add: New_start_def lookups_append split: sum.splits option.splits)

lemma New_start_pwshLocation:
  "fst (New_start b s w) = Inr s' \<Longrightarrow> pwshLocation s' = pwshLocation s"
  by (auto simp: New_start_def split: sum.splits option.splits if_splits)

lemma New_decorated:
  assumes "decorate decorators
             \<lparr>backend = None, env = [], envCombined = True, pwshLocation = [],
              sudoLocation = [], wd = []\<rparr> = Inr s0"
    and "b = (case backend s0 of None \<Rightarrow> local | Some b0 \<Rightarrow> b0)"
  shows "New local decorators w =
     (case New_pwsh b (s0\<lparr>backend := Some b\<rparr>)
             (w\<lparr>io := io w @ [EvSetEnv (env s0) (envCombined s0), EvSetWorkingDir (wd s0)]\<rparr>) of
        (Inl e, w2) \<Rightarrow> (Inl e, w2)
      | (Inr s2, w2) \<Rightarrow> New_start b s2 w2)"
  unfolding New_def Let_def assms by simp

text \<open>
  C8. Let the options leave the Shell \<open>s0\<close>, and let \<open>b\<close> be its backend (the local one
  when none was set). With no interpreter path in \<open>s0\<close>, \<open>New\<close> looks up \<open>pwsh\<close>; when
  that succeeds it looks up no \<open>powershell\<close> and uses the path found; only when it
  fails does it look up \<open>powershell\<close>, and uses that path; when both fail \<open>New\<close> fails
  with the binary-not-found error and has started no process. With a path in \<open>s0\<close>
  neither name is looked up and the path is kept. The one lookup \<open>New\<close> can make besides
  is that of \<open>sudo\<close>, for an elevated session with no sudo path of its own.
\<close>

theorem New_resolution:
  assumes "decorate decorators
             \<lparr>backend = None, env = [], envCombined = True, pwshLocation = [],
              sudoLocation = [], wd = []\<rparr> = Inr s0"
    and "b = (case backend s0 of None \<Rightarrow> local | Some b0 \<Rightarrow> b0)"
    and "sudo = (if sudoLocation s0 = ''sudo'' then [''sudo''] else [])"
    and "r = fst (New local decorators w)" and "w' = snd (New local decorators w)"
  shows "(\<forall>p. pwshLocation s0 = [] \<and> LookPath b ''pwsh'' = Inr p \<longrightarrow>
            lookups (io w') = lookups (io w) @ [''pwsh''] @ sudo
            \<and> (\<forall>s. r = Inr s \<longrightarrow> pwshLocation s = p))
       \<and> (\<forall>e p. pwshLocation s0 = [] \<and> LookPath b ''pwsh'' = Inl e
              \<and> LookPath b ''powershell'' = Inr p \<longrightarrow>
            lookups (io w') = lookups (io w) @ [''pwsh'', ''powershell''] @ sudo
            \<and> (\<forall>s. r = Inr s \<longrightarrow> pwshLocation s = p))
       \<and> (\<forall>e e'. pwshLocation s0 = [] \<and> LookPath b ''pwsh'' = Inl e
              \<and> LookPath b ''powershell'' = Inl e' \<longrightarrow>
            r = Inl (Err ''Failed to locate a PowerShell binary'')
            \<and> lookups (io w') = lookups (io w) @ [''pwsh'', ''powershell'']
            \<and> starts (io w') = starts (io w))
       \<and> (pwshLocation s0 \<noteq> [] \<longrightarrow>
            lookups (io w') = lookups (io w) @ sudo
            \<and> ''pwsh'' \<notin> set sudo \<and> ''powershell'' \<notin> set sudo
            \<and> (\<forall>s. r = Inr s \<longrightarrow> pwshLocation s = pwshLocation s0))"
proof -
  note new = New_decorated [OF assms(1,2), of w]
  let ?s1 = "s0\<lparr>backend := Some b\<rparr>"
  let ?w1 = "w\<lparr>io := io w @ [EvSetEnv (env s0) (envCombined s0), EvSetWorkingDir (wd s0)]\<rparr>"
  have first: "lookups (io w') = lookups (io w) @ [''pwsh''] @ sudo
            \<and> (\<forall>s. r = Inr s \<longrightarrow> pwshLocation s = p)"
    if "pwshLocation s0 = []" "LookPath b ''pwsh'' = Inr p" for p
  proof -
    have "New_pwsh b ?s1 ?w1
        = (Inr (?s1\<lparr>pwshLocation := p\<rparr>), ?w1\<lparr>io := io ?w1 @ [EvLookPath ''pwsh'']\<rparr>)"
      using that by (simp add: New_pwsh_def)
    then have "New local decorators w
        = New_start b (?s1\<lparr>pwshLocation := p\<rparr>) (?w1\<lparr>io := io ?w1 @ [EvLookPath ''pwsh'']\<rparr>)"
      using new by simp
    then show ?thesis
      using New_start_pwshLocation [of b "?s1\<lparr>pwshLocation := p\<rparr>"
          "?w1\<lparr>io := io ?w1 @ [EvLookPath ''pwsh'']\<rparr>"]
      by (simp add: assms(3,4,5) New_start_lookups lookups_append)
  qed
  have second: "lookups (io w') = lookups (io w) @ [''pwsh'', ''powershell''] @ sudo
            \<and> (\<forall>s. r = Inr s \<longrightarrow> pwshLocation s = p)"
    if "pwshLocation s0 = []" "LookPath b ''pwsh'' = Inl e" "LookPath b ''powershell'' = Inr p"
    for e p
  proof -
    have "New_pwsh b ?s1 ?w1
        = (Inr (?s1\<lparr>pwshLocation := p\<rparr>),
           ?w1\<lparr>io := io ?w1 @ [EvLookPath ''pwsh'', EvLookPath ''powershell'']\<rparr>)"
      using that by (simp add: New_pwsh_def)
    then have "New local decorators w
        = New_start b (?s1\<lparr>pwshLocation := p\<rparr>)
            (?w1\<lparr>io := io ?w1 @ [EvLookPath ''pwsh'', EvLookPath ''powershell'']\<rparr>)"
      using new by simp
    then show ?thesis
      using New_start_pwshLocation [of b "?s1\<lparr>pwshLocation := p\<rparr>"
          "?w1\<lparr>io := io ?w1 @ [EvLookPath ''pwsh'', EvLookPath ''powershell'']\<rparr>"]
      by (simp add: assms(3,4,5) New_start_lookups lookups_append)
  qed
  have none: "r = Inl (Err ''Failed to locate a PowerShell binary'')
            \<and> lookups (io w') = lookups (io w) @ [''pwsh'', ''powershell'']
            \<and> starts (io w') = starts (io w)"
    if "pwshLocation s0 = []" "LookPath b ''pwsh'' = Inl e" "LookPath b ''powershell'' = Inl e'"
    for e e'
  proof -
    have "New_pwsh b ?s1 ?w1
        = (Inl (Err ''Failed to locate a PowerShell binary''),
           ?w1\<lparr>io := io ?w1 @ [EvLookPath ''pwsh'', EvLookPath ''powershell'']\<rparr>)"
      using that by (simp add: New_pwsh_def)
    then show ?thesis
      using new by (simp add: assms(4,5) lookups_append starts_append)
  qed
  have explicit: "lookups (io w') = lookups (io w) @ sudo
            \<and> ''pwsh'' \<notin> set sudo \<and> ''powershell'' \<notin> set sudo
            \<and> (\<forall>s. r = Inr s \<longrightarrow> pwshLocation s = pwshLocation s0)"
    if "pwshLocation s0 \<noteq> []"
  proof -
    have "New_pwsh b ?s1 ?w1 = (Inr ?s1, ?w1)"
      using that by (simp add: New_pwsh_def)
    then have "New local decorators w = New_start b ?s1 ?w1"
      using new by simp
    then show ?thesis
      using New_start_pwshLocation [of b ?s1 ?w1]
      by (simp add: assms(3,4,5) New_start_lookups lookups_append)
  qed
  show ?thesis
    using first second none explicit by blast
qed

theorem New_resolution_witness:
  "lookups (io (snd (New (sample_backend (WriteOk [] [])) [] sample_world)))
     = [''pwsh'', ''powershell'']
   \<and> lookups (io (snd (New (sample_backend (WriteOk [] [])) [PwshLocation ''/opt/pwsh'']
         sample_world))) = []
   \<and> lookups (io (snd (New ((sample_backend (WriteOk [] []))
         \<lparr>LookPath := (\<lambda>file. Inr (''/bin/'' @ file))\<rparr>) [] sample_world))) = [''pwsh'']
   \<and> fst (New ((sample_backend (WriteOk [] []))
         \<lparr>LookPath := (\<lambda>file. Inl (Err ''executable file not found''))\<rparr>) [] sample_world)
       = Inl (Err ''Failed to locate a PowerShell binary'')"
proof -
  have d: "decorate [PwshLocation ''/opt/pwsh'']
             \<lparr>backend = None, env = [], envCombined = True, pwshLocation = [],
              sudoLocation = [], wd = []\<rparr>
      = Inr \<lparr>backend = None, env = [], envCombined = True, pwshLocation = ''/opt/pwsh'',
              sudoLocation = [], wd = []\<rparr>"
    by (simp add: PwshLocation_def)
  show ?thesis
    using New_resolution [OF decorate.simps(1) refl refl refl refl,
        where local = "sample_backend (WriteOk [] [])" and w = sample_world]
      New_resolution [OF d refl refl refl refl,
        where local = "sample_backend (WriteOk [] [])" and w = sample_world]
      New_resolution [OF decorate.simps(1) refl refl refl refl,
        where local = "(sample_backend (WriteOk [] []))
         \<lparr>LookPath := (\<lambda>file. Inr (''/bin/'' @ file))\<rparr>" and w = sample_world]
      New_resolution [OF decorate.simps(1) refl refl refl refl,
        where local = "(sample_backend (WriteOk [] []))
         \<lparr>LookPath := (\<lambda>file. Inl (Err ''executable file not found''))\<rparr>"
          and w = sample_world]
    by (simp add: sample_backend_def sample_world_def)
qed

section \<open>Reading a pipe up to its sentinel\<close>

lemma marker_only_at_end:
  assumes nosub: "\<not> sublist B out" and nl: "NL \<noteq> []" and hd: "hd NL \<notin> set B"
    and pre: "prefix p (out @ B @ NL)" and suf: "suffix (B @ NL) p"
  shows "p = out @ B @ NL"
proof -
  from suf obtain x where p: "p = x @ B @ NL" by (auto simp: suffix_def)
  from pre p obtain y where tot: "out @ B @ NL = x @ B @ NL @ y" by (auto simp: prefix_def)
  have len: "length out = length x + length y"
    using arg_cong [OF tot, of length] by simp
  have "take (length x) (out @ B @ NL) = take (length x) (x @ B @ NL @ y)"
    using tot by simp
  then have x: "x = take (length x) out" using len by simp
  define z where "z = drop (length x) out"
  have out: "out = x @ z" unfolding z_def using x by (metis append_take_drop_id)
  have zlen: "length z = length y" unfolding z_def using len by simp
  from tot out have E: "z @ B @ NL = B @ NL @ y" by simp
  show ?thesis
  proof (cases "z = []")
    case True
    with zlen p out show ?thesis by simp
  next
    case False
    show ?thesis
    proof (cases "length B \<le> length z")
      case True
      have "take (length B) (z @ B @ NL) = take (length B) (B @ NL @ y)" using E by simp
      then have "take (length B) z = B" using True by simp
      then have "prefix B z" by (metis take_is_prefix)
      then have "sublist B out" unfolding out
        by (meson prefix_imp_sublist sublist_append)
      with nosub show ?thesis by simp
    next
      case False
      with \<open>z \<noteq> []\<close> have z: "0 < length z" "length z < length B" by auto
      have idx: "length B - length z < length B" using z by arith
      have "(z @ B @ NL) ! length B = (B @ NL) ! (length B - length z)"
        using z(2) by (simp add: nth_append)
      also have "\<dots> = B ! (length B - length z)"
        using idx by (simp add: nth_append)
      finally have "(z @ B @ NL) ! length B = B ! (length B - length z)" .
      moreover have "(B @ NL @ y) ! length B = hd NL"
        using nl by (simp add: nth_append hd_conv_nth)
      ultimately have "hd NL = B ! (length B - length z)" using E by simp
      moreover have "B ! (length B - length z) \<in> set B" using idx by simp
      ultimately show ?thesis using hd by simp
    qed
  qed
qed

lemma fatal_marker_not_in_stream:
  assumes "\<not> sublist M out" and "M \<noteq> []" and "hd M \<notin> set T" and "T \<noteq> []"
    and "hd T \<notin> set M"
  shows "\<not> sublist M (out @ T)"
proof
  assume "sublist M (out @ T)"
  then consider "sublist M out" | "sublist M T"
    | xs1 xs2 where "M = xs1 @ xs2" "suffix xs1 out" "prefix xs2 T"
    unfolding sublist_append by blast
  then show False
  proof cases
    case 1
    with assms show False by simp
  next
    case 2
    then have "set M \<subseteq> set T" by (rule set_mono_sublist)
    with assms(2,3) show False by (cases M) auto
  next
    case 3
    show False
    proof (cases "xs2 = []")
      case True
      with 3 have "sublist M out" by auto
      with assms show False by simp
    next
      case False
      with 3(3) assms(4) have "hd xs2 = hd T" by (cases xs2; cases T) auto
      moreover have "hd xs2 \<in> set M" using False 3(1) by (cases xs2) auto
      ultimately show False using assms(5) by simp
    qed
  qed
qed


lemma Read_chunks:
  assumes "cs \<noteq> []"
  shows "\<exists>c cs'. Read (map Chunk cs) = Some (Chunk c, map Chunk cs')
           \<and> concat cs = c @ concat cs'
           \<and> pending_size (map Chunk cs') < pending_size (map Chunk cs)"
proof (cases cs)
  case Nil
  with assms show ?thesis by simp
next
  case (Cons c rest)
  show ?thesis
  proof (cases "length c \<le> bufferSize")
    case True
    then have "Read (map Chunk cs) = Some (Chunk c, map Chunk rest)"
      by (simp add: Cons)
    moreover have "concat cs = c @ concat rest" by (simp add: Cons)
    moreover have "pending_size (map Chunk rest) < pending_size (map Chunk cs)"
      by (simp add: Cons)
    ultimately show ?thesis by blast
  next
    case False
    then have "Read (map Chunk cs)
        = Some (Chunk (take bufferSize c), map Chunk (drop bufferSize c # rest))"
      by (simp add: Cons)
    moreover have "pending_size (map Chunk (drop bufferSize c # rest))
        < pending_size (map Chunk cs)"
      using False by (simp add: Cons bufferSize_def)
    moreover have "concat cs = take bufferSize c @ concat (drop bufferSize c # rest)"
      by (simp add: Cons)
    ultimately show ?thesis by blast
  qed
qed

lemma race_resolves:
  assumes "suffix marker (acc @ concat cs)"
    and "\<And>p. prefix p (acc @ concat cs) \<Longrightarrow> suffix marker p \<Longrightarrow> p = acc @ concat cs"
    and "\<not> sublist ''ParserError'' (acc @ concat cs)"
    and "cs \<noteq> []"
  shows "\<exists>n' cs'. streamReader_race watch take_n marker n acc (map Chunk cs) []
            = (Resolved (), acc @ concat cs, n', map Chunk cs', []) \<and> concat cs' = []"
  using assms
proof (induction "pending_size (map Chunk cs)" arbitrary: cs acc n rule: less_induct)
  case less
  from Read_chunks [OF less.prems(4)] obtain c cs' where
    rd: "Read (map Chunk cs) = Some (Chunk c, map Chunk cs')"
    and cat: "concat cs = c @ concat cs'"
    and smaller: "pending_size (map Chunk cs') < pending_size (map Chunk cs)"
    by blast
  have tot: "acc @ concat cs = (acc @ c) @ concat cs'" by (simp add: cat)
  have nofatal: "\<not> Contains (acc @ c) ''ParserError''"
  proof
    assume "Contains (acc @ c) ''ParserError''"
    then have "sublist ''ParserError'' (acc @ c)" by (simp add: Contains_def)
    then have "sublist ''ParserError'' ((acc @ c) @ concat cs')"
      by (meson sublist_append)
    with less.prems(3) tot show False by simp
  qed
  show ?case
  proof (cases "HasSuffix (acc @ c) marker")
    case True
    have "prefix (acc @ c) (acc @ concat cs)" unfolding tot by simp
    then have "acc @ c = acc @ concat cs"
      using less.prems(2) [of "acc @ c"] True by (simp add: HasSuffix_def)
    then have "concat cs' = []" using tot by simp
    moreover have "streamReader_race watch take_n marker n acc (map Chunk cs) []
        = (Resolved (), acc @ c, Suc n, map Chunk cs', [])"
      using rd nofatal True by (subst streamReader_race.simps) auto
    ultimately show ?thesis using tot by auto
  next
    case False
    have step: "streamReader_race watch take_n marker n acc (map Chunk cs) []
        = streamReader_race watch take_n marker (Suc n) (acc @ c) (map Chunk cs') []"
      using rd nofatal False by (subst streamReader_race.simps) auto
    have ne: "cs' \<noteq> []"
    proof
      assume "cs' = []"
      then have "acc @ c = acc @ concat cs" using tot by simp
      with less.prems(1) False show False by (simp add: HasSuffix_def)
    qed
    have "\<exists>n' cs''. streamReader_race watch take_n marker (Suc n) (acc @ c) (map Chunk cs') []
            = (Resolved (), (acc @ c) @ concat cs', n', map Chunk cs'', [])
          \<and> concat cs'' = []"
    proof (rule less.hyps [OF smaller _ _ _ ne])
      show "suffix marker ((acc @ c) @ concat cs')" using less.prems(1) tot by simp
      show "\<not> sublist ''ParserError'' ((acc @ c) @ concat cs')" using less.prems(3) tot by simp
      show "p = (acc @ c) @ concat cs'"
        if "prefix p ((acc @ c) @ concat cs')" "suffix marker p" for p
        using less.prems(2) [of p] that tot by simp
    qed
    then show ?thesis unfolding step tot .
  qed
qed

lemma newLine_cases: "newLine pf = [CHR 0x0A] \<or> newLine pf = [CHR 0x0D, CHR 0x0A]"
  by (simp add: newLine_def)

lemma boundary_no_newline:
  "newLine pf \<noteq> [] \<and> hd (newLine pf) \<notin> set (fst (createBoundary w))"
  using createBoundary_chars [of w] newLine_cases [of pf] by auto

lemma fatal_marker_not_in_boundary:
  "\<not> Contains out ''ParserError''
   \<Longrightarrow> \<not> sublist ''ParserError'' (out @ fst (createBoundary w) @ newLine pf)"
proof (rule fatal_marker_not_in_stream)
  show "hd ''ParserError'' \<notin> set (fst (createBoundary w) @ newLine pf)"
    using createBoundary_chars [of w] newLine_cases [of pf] by auto
  show "hd (fst (createBoundary w) @ newLine pf) \<notin> set ''ParserError''"
    by (simp add: createBoundary_text)
  show "fst (createBoundary w) @ newLine pf \<noteq> []"
    by (simp add: createBoundary_text)
qed (simp_all add: Contains_def)

lemma TrimSuffix_append: "TrimSuffix (out @ m) m = out"
  by (simp add: TrimSuffix_def HasSuffix_def suffixI)

lemma streamReader_round_trip:
  assumes "concat cs = out @ fst (createBoundary w0) @ newLine pf"
    and "\<not> Contains out (fst (createBoundary w0))"
    and "\<not> Contains out ''ParserError''"
  shows "\<exists>output n cs'. streamReader pf watch take_n (map Chunk cs) [] (fst (createBoundary w0))
           = (Resolved out, output, n, map Chunk cs', []) \<and> concat cs' = []"
proof -
  let ?B = "fst (createBoundary w0)"
  let ?m = "?B @ newLine pf"
  have ne: "cs \<noteq> []"
    using assms(1) boundary_no_newline [of pf w0] by auto
  have 1: "suffix ?m ([] @ concat cs)"
    by (simp add: assms(1) suffix_def)
  have 2: "p = [] @ concat cs" if "prefix p ([] @ concat cs)" "suffix ?m p" for p
    using marker_only_at_end [of ?B out "newLine pf" p] that assms(1,2)
      boundary_no_newline [of pf w0]
    by (simp add: Contains_def)
  have 3: "\<not> sublist ''ParserError'' ([] @ concat cs)"
    using fatal_marker_not_in_boundary [OF assms(3), of w0 pf] by (simp add: assms(1))
  from race_resolves [of ?m "[]" cs watch take_n 0, OF 1 2 3 ne]
  obtain n' cs' where
    "streamReader_race watch take_n ?m 0 [] (map Chunk cs) []
       = (Resolved (), concat cs, n', map Chunk cs', [])" "concat cs' = []"
    by auto
  then show ?thesis
    using TrimSuffix_append [of out ?m]
    by (auto simp: streamReader_def Let_def assms(1))
qed

lemma Write_left:
  "stdoutLeft (snd (Write b d)) = stdoutLeft b \<and> stderrLeft (snd (Write b d)) = stderrLeft b"
  by (simp add: Write_def split: write_result.splits)

lemma execute_single_round_trip:
  assumes "backend s = Some b"
    and "stdoutLeft b = []" and "stderrLeft b = []"
    and "createBoundary w = (outSentinel, w1)" and "createBoundary w1 = (errSentinel, w2)"
    and "Write b (framed pf cmd outSentinel errSentinel) = (None, b1)"
    and "stdoutPending b1 = map Chunk chunks1"
    and "concat chunks1 = out @ outSentinel @ newLine pf"
    and "stderrPending b1 = map Chunk chunks2"
    and "concat chunks2 = err @ errSentinel @ newLine pf"
    and "\<not> Contains out outSentinel" and "\<not> Contains err errSentinel"
    and "\<not> Contains out ''ParserError''" and "\<not> Contains err ''ParserError''"
  shows "fst (execute pf cmd s w) = Some (out, err, None)
       \<and> (\<exists>b'. backend (fst (snd (execute pf cmd s w))) = Some b'
             \<and> payload (stdoutPending b') = [] \<and> payload (stderrPending b') = []
             \<and> stdoutLeft b' = [] \<and> stderrLeft b' = [])"
proof -
  let ?w1 = "w\<lparr>drawn := drawn w + 12\<rparr>"
  have w1: "w1 = ?w1" and o: "outSentinel = fst (createBoundary w)"
    using assms(4) createBoundary_world [of w] by auto
  have e: "errSentinel = fst (createBoundary ?w1)"
    using assms(5) w1 by auto
  have left: "stdoutLeft b1 = []" "stderrLeft b1 = []"
    using Write_left [of b "framed pf cmd outSentinel errSentinel"] assms(2,3,6) by simp_all
  obtain output1 n1 cs1 where r1:
    "streamReader pf (watchOut (sched w (cycles w))) (takeOut (sched w (cycles w)))
       (stdoutPending b1) (stdoutLeft b1) (fst (createBoundary w))
       = (Resolved out, output1, n1, map Chunk cs1, [])" and c1: "concat cs1 = []"
    using streamReader_round_trip [of chunks1 out w pf "watchOut (sched w (cycles w))"
        "takeOut (sched w (cycles w))"]
      assms(7,8,11,13) o left by auto
  obtain output2 n2 cs2 where r2:
    "streamReader pf (watchErr (sched w (cycles w))) (takeErr (sched w (cycles w)))
       (stderrPending b1) (stderrLeft b1) (fst (createBoundary ?w1))
       = (Resolved err, output2, n2, map Chunk cs2, [])"
    and c2: "concat cs2 = []"
    using streamReader_round_trip [of chunks2 err ?w1 pf "watchErr (sched w (cycles w))"
        "takeErr (sched w (cycles w))"]
      assms(9,10,12,14) e left by auto
  have wr: "Write b (framed pf cmd (fst (createBoundary w)) (fst (createBoundary ?w1)))
      = (None, b1)"
    using assms(6) o e by simp
  have pay: "payload (map Chunk cs) = concat cs" for cs
    by (induction cs) simp_all
  show ?thesis
    using execute_reads [OF assms(1) wr r1 r2 refl refl] c1 c2
    by (simp add: FastAllOrError_def abandon_def pay)
qed

lemma Execute_single:
  "Execute pf [cmd] s w =
     (case execute pf cmd s w of
        (None, s', w') \<Rightarrow> (None, s', w')
      | (Some (out, e, None), s', w') \<Rightarrow> (Some (out, e, None), s', w')
      | (Some (out, e, Some er), s', w') \<Rightarrow>
          (Some (out, e, Some (Wrap er [''failed to execute'', cmd])), s', w'))"
  by (simp add: Execute_def split: prod.splits option.splits)

section \<open>The framing round trip\<close>

text \<open>
  C1, as stated, fails: a command that prints the text \<open>ParserError\<close>, followed by its
  sentinel, prints neither sentinel inside its output, yet when the polling goroutine
  sees the text before the reader has reached the sentinel the call returns no output
  and an error.
\<close>

theorem execute_round_trip_counterexample:
  "fst (createBoundary sample_world) = ''$gopwsh0123456789ab$''
   \<and> fst (createBoundary (snd (createBoundary sample_world))) = ''$gopwshcdef01234567$''
   \<and> \<not> Contains (''ParserError'' @ [CHR 0x0A]) ''$gopwsh0123456789ab$''
   \<and> \<not> Contains (''ParserError'' @ [CHR 0x0A]) ''$gopwshcdef01234567$''
   \<and> fst (Execute sample_platform [''echo ParserError'']
          (sample_shell (Some echo_marker_backend)) sample_world)
       = Some ([], [],
           Some (Wrap (Wrap (Err (''ParserError'' @ [CHR 0x0A]))
                         [''Failed to read stdout/stderr steams''])
                   [''failed to execute'', ''echo ParserError'']))
   \<and> fst (Execute sample_platform [''echo ParserError'']
          (sample_shell (Some echo_marker_backend)) sample_world)
       \<noteq> Some (''ParserError'' @ [CHR 0x0A], [], None)"
  by code_simp

text \<open>
  C1, amended. Let a single command be written successfully on an open session on whose
  pipes no earlier call has left a reader, and let what the pipes then hold be, in any
  pieces whatever, the command's stdout text then the stdout sentinel and the newline,
  and its stderr text then the stderr sentinel and the newline. If neither text
  contains its own sentinel nor the fatal marker \<open>ParserError\<close>, then, whatever the
  scheduling, \<open>Execute\<close> returns: exactly the two texts, and no error, also when the
  stderr text is not empty; the session stays open, the pipes hold no text afterwards
  and no reader is left on them, so that the next command meets the same conditions.
\<close>

theorem execute_round_trip:
  assumes "backend s = Some b"
    and "stdoutLeft b = []" and "stderrLeft b = []"
    and "createBoundary w = (outSentinel, w1)" and "createBoundary w1 = (errSentinel, w2)"
    and "Write b (framed pf cmd outSentinel errSentinel) = (None, b1)"
    and "stdoutPending b1 = map Chunk chunks1"
    and "concat chunks1 = out @ outSentinel @ newLine pf"
    and "stderrPending b1 = map Chunk chunks2"
    and "concat chunks2 = err @ errSentinel @ newLine pf"
    and "\<not> Contains out outSentinel" and "\<not> Contains err errSentinel"
    and "\<not> Contains out ''ParserError''" and "\<not> Contains err ''ParserError''"
  shows "fst (Execute pf [cmd] s w) = Some (out, err, None)
       \<and> (\<exists>b'. backend (fst (snd (Execute pf [cmd] s w))) = Some b'
             \<and> payload (stdoutPending b') = [] \<and> payload (stderrPending b') = []
             \<and> stdoutLeft b' = [] \<and> stderrLeft b' = [])"
proof -
  obtain r s' w' where ex: "execute pf cmd s w = (r, s', w')"
    by (cases "execute pf cmd s w") auto
  from execute_single_round_trip [OF assms] ex
  have "r = Some (out, err, None)"
    and "\<exists>b'. backend s' = Some b'
             \<and> payload (stdoutPending b') = [] \<and> payload (stderrPending b') = []
             \<and> stdoutLeft b' = [] \<and> stderrLeft b' = []"
    by simp_all
  then show ?thesis
    by (simp add: Execute_single ex)
qed

theorem execute_round_trip_witness:
  "fst (Execute sample_platform [''echo hello''] (sample_shell (Some hello_backend))
          sample_world)
     = Some (''hello'' @ [CHR 0x0A], ''warning'' @ [CHR 0x0A], None)"
proof -
  let ?full = "framed sample_platform ''echo hello'' ''$gopwsh0123456789ab$''
      ''$gopwshcdef01234567$''"
  let ?b1 = "snd (Write hello_backend ?full)"
  have 1: "backend (sample_shell (Some hello_backend)) = Some hello_backend"
    by (simp add: sample_shell_def)
  have 2: "stdoutLeft hello_backend = []" and 3: "stderrLeft hello_backend = []"
    by (simp_all add: hello_backend_def sample_backend_def)
  have 4: "Write hello_backend ?full = (None, ?b1)"
    by (simp add: Write_def hello_backend_def sample_backend_def)
  have 5: "stdoutPending ?b1 = map Chunk [''hel'', ''lo'' @ [CHR 0x0A] @ ''$gopwsh01'',
      ''23456789ab$'' @ [CHR 0x0A]]"
    by (simp add: Write_def hello_backend_def sample_backend_def)
  have 6: "concat [''hel'', ''lo'' @ [CHR 0x0A] @ ''$gopwsh01'', ''23456789ab$'' @ [CHR 0x0A]]
      = (''hello'' @ [CHR 0x0A]) @ ''$gopwsh0123456789ab$'' @ newLine sample_platform"
    by (simp add: newLine_def sample_platform_def)
  have 7: "stderrPending ?b1
      = map Chunk [''warning'', [CHR 0x0A] @ ''$gopwshcdef01234567$'' @ [CHR 0x0A]]"
    by (simp add: Write_def hello_backend_def sample_backend_def)
  have 8: "concat [''warning'', [CHR 0x0A] @ ''$gopwshcdef01234567$'' @ [CHR 0x0A]]
      = (''warning'' @ [CHR 0x0A]) @ ''$gopwshcdef01234567$'' @ newLine sample_platform"
    by (simp add: newLine_def sample_platform_def)
  have 9: "\<not> Contains (''hello'' @ [CHR 0x0A]) ''$gopwsh0123456789ab$''"
    by code_simp
  have 10: "\<not> Contains (''warning'' @ [CHR 0x0A]) ''$gopwshcdef01234567$''"
    by code_simp
  have 11: "\<not> Contains (''hello'' @ [CHR 0x0A]) ''ParserError''"
    by code_simp
  have 12: "\<not> Contains (''warning'' @ [CHR 0x0A]) ''ParserError''"
    by code_simp
  show ?thesis
    using execute_round_trip
      [OF 1 2 3 sample_out_sentinel sample_err_sentinel 4 5 6 7 8 9 10 11 12]
    by simp
qed

section \<open>A reader left behind\<close>

text \<open>
  What the round trip leaves out. The first command of \<open>boom_backend\<close> fails on stdout
  while the reader of stderr is blocked in \<open>Read\<close>; the call returns the failure, the
  session stays open, and that reader stays on stderr with the marker of the first
  command. The second command prints \<open>ok\<close> and both of its sentinels, but the reader
  left behind is served first and takes the stderr sentinel: the second call never
  returns.
\<close>

lemma reader_left_behind:
  "fst (Execute sample_platform [''a''] (sample_shell (Some boom_backend)) sample_world)
     = Some ([], [], Some (Wrap (Wrap (Wrap (Err ''boom'') [''failed to read stream''])
                  [''Failed to read stdout/stderr steams'']) [''failed to execute'', ''a'']))
   \<and> map_option stderrLeft (backend (fst (snd (Execute sample_platform [''a'']
          (sample_shell (Some boom_backend)) sample_world))))
     = Some [\<lparr>leftMarker = ''$gopwshcdef01234567$'' @ [CHR 0x0A], leftOutput = [],
              leftStopping = False\<rparr>]
   \<and> fst (createBoundary (sample_world\<lparr>drawn := 24\<rparr>)) = ''$gopwsh89abcdef0123$''
   \<and> fst (createBoundary (sample_world\<lparr>drawn := 36\<rparr>)) = ''$gopwsh456789abcdef$''
   \<and> fst (Execute sample_platform [''b'']
          (fst (snd (Execute sample_platform [''a''] (sample_shell (Some boom_backend))
                       sample_world)))
          (snd (snd (Execute sample_platform [''a''] (sample_shell (Some boom_backend))
                       sample_world))))
     = None"
  by code_simp

section \<open>The fatal path\<close>

text \<open>
  C2, as stated, fails: after a call that closed the session on a parse failure, an
  \<open>Execute\<close> call with no commands returns no closed-session error.
\<close>

theorem fatal_closes_session_counterexample:
  "Contains (ErrorText sample_platform
               (Err ''ParserError: (:) [], ParentContainsErrorRecordException'')) ''ParserError''
   \<and> fst (execute sample_platform ''Get-Item (''
          (sample_shell (Some parse_failure_backend)) sample_world)
       = Some ([], [],
           Some (Wrap (Err ''ParserError: (:) [], ParentContainsErrorRecordException'')
                   [''Failed to read stdout/stderr steams'']))
   \<and> backend (fst (snd (execute sample_platform ''Get-Item (''
          (sample_shell (Some parse_failure_backend)) sample_world))) = None
   \<and> fst (Execute sample_platform []
          (fst (snd (execute sample_platform ''Get-Item (''
             (sample_shell (Some parse_failure_backend)) sample_world)))
          (snd (snd (execute sample_platform ''Get-Item (''
             (sample_shell (Some parse_failure_backend)) sample_world))))
       = Some ([], [], None)"
proof -
  have 1: "backend (sample_shell (Some parse_failure_backend)) = Some parse_failure_backend"
    by (simp add: sample_shell_def)
  have 2: "fst (execute sample_platform ''Get-Item (''
          (sample_shell (Some parse_failure_backend)) sample_world)
       = Some ([], [],
           Some (Wrap (Err ''ParserError: (:) [], ParentContainsErrorRecordException'')
                   [''Failed to read stdout/stderr steams'']))"
    by code_simp
  have 3: "Contains (ErrorText sample_platform
               (Err ''ParserError: (:) [], ParentContainsErrorRecordException'')) ''ParserError''"
    by code_simp
  show ?thesis
    using execute_read_failure [OF 1 2] 2 3 by (simp add: Execute_def)
qed

text \<open>
  C2, amended. When the stream-read failure of a call (the error that
  \<open>FastAllOrError\<close> returned, which \<open>execute\<close> wraps) has a message that contains
  \<open>ParserError\<close>, the session is closed, its backend released, when the wrapped error
  is returned, and every later \<open>Execute\<close> call with at least one command returns the
  closed-shell error and leaves the Shell and the world as they are: no write, no read.
  Any other stream-read failure leaves the session open.
\<close>

theorem fatal_closes_session:
  assumes "backend s = Some b"
    and "fst (execute pf cmd s w)
           = Some (out, e, Some (Wrap err [''Failed to read stdout/stderr steams'']))"
  shows "(Contains (ErrorText pf err) ''ParserError'' \<longrightarrow>
            backend (fst (snd (execute pf cmd s w))) = None
            \<and> (\<forall>cmds. cmds \<noteq> [] \<longrightarrow>
                  Execute pf cmds (fst (snd (execute pf cmd s w))) (snd (snd (execute pf cmd s w)))
                    = (Some ([], [],
                         Some (Wrap (Wrap (Err ''Cannot execute commands on closed shells.'')
                                       [hd cmds]) [''failed to execute'', hd cmds])),
                       fst (snd (execute pf cmd s w)), snd (snd (execute pf cmd s w)))))
       \<and> (\<not> Contains (ErrorText pf err) ''ParserError'' \<longrightarrow>
            (\<exists>b'. backend (fst (snd (execute pf cmd s w))) = Some b'))"
  using execute_read_failure [OF assms] Execute_rejects_closed by blast

theorem fatal_closes_session_witness:
  "backend (fst (snd (execute sample_platform ''Get-Item (''
          (sample_shell (Some parse_failure_backend)) sample_world))) = None
   \<and> fst (Execute sample_platform [''ls'']
          (fst (snd (execute sample_platform ''Get-Item (''
             (sample_shell (Some parse_failure_backend)) sample_world)))
          (snd (snd (execute sample_platform ''Get-Item (''
             (sample_shell (Some parse_failure_backend)) sample_world))))
       = Some ([], [], Some (Wrap (Wrap (Err ''Cannot execute commands on closed shells.'')
                                     [''ls'']) [''failed to execute'', ''ls'']))
   \<and> (\<exists>b'. backend (fst (snd (execute sample_platform ''bad''
          (sample_shell (Some eof_backend)) sample_world))) = Some b')"
proof -
  have 1: "backend (sample_shell (Some parse_failure_backend)) = Some parse_failure_backend"
    by (simp add: sample_shell_def)
  have 2: "fst (execute sample_platform ''Get-Item (''
          (sample_shell (Some parse_failure_backend)) sample_world)
       = Some ([], [],
           Some (Wrap (Err ''ParserError: (:) [], ParentContainsErrorRecordException'')
                   [''Failed to read stdout/stderr steams'']))"
    by code_simp
  have 3: "Contains (ErrorText sample_platform
               (Err ''ParserError: (:) [], ParentContainsErrorRecordException'')) ''ParserError''"
    by code_simp
  have 4: "backend (sample_shell (Some eof_backend)) = Some eof_backend"
    by (simp add: sample_shell_def)
  have 5: "fst (execute sample_platform ''bad'' (sample_shell (Some eof_backend)) sample_world)
     = Some ([], [], Some (Wrap (Wrap (Err ''EOF'') [''failed to read stream''])
                  [''Failed to read stdout/stderr steams'']))"
    by code_simp
  have 6: "\<not> Contains (ErrorText sample_platform (Wrap (Err ''EOF'') [''failed to read stream'']))
             ''ParserError''"
    by code_simp
  have 7: "[''ls''] \<noteq> []" by simp
  show ?thesis
    using fatal_closes_session [OF 1 2] fatal_closes_session [OF 4 5] 3 6 7 by fastforce
qed

section \<open>Execute over several commands\<close>

lemma Execute_loop_spec:
  "Execute_loop pf out1 err1 cmds s w =
     (case Execute_spec pf cmds s w of
        (None, s', w') \<Rightarrow> (None, s', w')
      | (Some (out, e, r), s', w') \<Rightarrow> (Some (out1 @ out, err1 @ e, r), s', w'))"
proof (induction cmds arbitrary: out1 err1 s w)
  case Nil
  show ?case by simp
next
  case (Cons cmd cmds)
  obtain r s' w' where ex: "execute pf cmd s w = (r, s', w')"
    by (cases "execute pf cmd s w") auto
  show ?case
  proof (cases r)
    case None
    with ex show ?thesis by simp
  next
    case (Some v)
    obtain out e err where v: "v = (out, e, err)" by (cases v) auto
    show ?thesis
    proof (cases err)
      case None
      with ex Some v show ?thesis
        by (simp add: Cons.IH split: prod.splits option.splits)
    next
      case (Some er)
      with ex \<open>r = Some v\<close> v execute_failure_empty [of pf cmd s w out e er]
      show ?thesis by simp
    qed
  qed
qed

text \<open>
  C3, as stated, fails: a command whose stdout gave \<open>partial\<close> before the pipe ended
  fails, and \<open>Execute\<close> returns empty stdout, without that partial output.
\<close>

theorem Execute_sequence_counterexample:
  "fst (snd (streamReader sample_platform (\<lambda>n. True) (\<lambda>n. 1)
               [Chunk ''partial'', Failure (Err ''EOF'')] []
               (fst (createBoundary sample_world)))) = ''partial''
   \<and> fst (Execute sample_platform [''bad''] (sample_shell (Some eof_backend)) sample_world)
     = Some ([], [],
         Some (Wrap (Wrap (Wrap (Err ''EOF'') [''failed to read stream''])
                  [''Failed to read stdout/stderr steams'']) [''failed to execute'', ''bad'']))"
  by code_simp

text \<open>
  C3, amended. For every sequence of commands \<open>Execute\<close> runs each command in order
  through the single-command protocol and concatenates the stdout texts and the stderr
  texts of the commands that succeed; it stops at the first failing command and returns
  the texts accumulated before it, with an error that names the failed command and
  wraps the cause. The failing command adds nothing: whenever \<open>execute\<close> returns an
  error it returns two empty texts.
\<close>

theorem Execute_sequence:
  "Execute pf cmds s w = Execute_spec pf cmds s w
   \<and> (\<forall>out e er. fst (execute pf cmd s w) = Some (out, e, Some er) \<longrightarrow> out = [] \<and> e = [])"
proof -
  have "Execute pf cmds s w = Execute_spec pf cmds s w"
    by (simp add: Execute_def Execute_loop_spec split: prod.splits option.splits)
  then show ?thesis
    using execute_failure_empty [of pf cmd s w] by blast
qed

theorem Execute_sequence_witness:
  "fst (Execute sample_platform [''echo hello'', ''bad'']
          (sample_shell (Some two_step_backend)) sample_world)
     = Some (''hello'' @ [CHR 0x0A], [],
         Some (Wrap (Wrap (Wrap (Err ''EOF'') [''failed to read stream''])
                  [''Failed to read stdout/stderr steams'']) [''failed to execute'', ''bad'']))
   \<and> fst (Execute_spec sample_platform [''echo hello'', ''bad'']
          (sample_shell (Some two_step_backend)) sample_world)
     = Some (''hello'' @ [CHR 0x0A], [],
         Some (Wrap (Wrap (Wrap (Err ''EOF'') [''failed to read stream''])
                  [''Failed to read stdout/stderr steams'']) [''failed to execute'', ''bad'']))
   \<and> fst (execute sample_platform ''bad'' (sample_shell (Some eof_backend)) sample_world)
     = Some ([], [], Some (Wrap (Wrap (Err ''EOF'') [''failed to read stream''])
                  [''Failed to read stdout/stderr steams'']))"
proof -
  have a: "fst (Execute_spec sample_platform [''echo hello'', ''bad'']
          (sample_shell (Some two_step_backend)) sample_world)
     = Some (''hello'' @ [CHR 0x0A], [],
         Some (Wrap (Wrap (Wrap (Err ''EOF'') [''failed to read stream''])
                  [''Failed to read stdout/stderr steams'']) [''failed to execute'', ''bad'']))"
    by code_simp
  have b: "fst (execute sample_platform ''bad'' (sample_shell (Some eof_backend)) sample_world)
     = Some ([], [], Some (Wrap (Wrap (Err ''EOF'') [''failed to read stream''])
                  [''Failed to read stdout/stderr steams'']))"
    by code_simp
  show ?thesis
    using Execute_sequence [of sample_platform "[''echo hello'', ''bad'']"
        "sample_shell (Some two_step_backend)" sample_world "''bad''"] a b
    by simp
qed

end
